theory Spec2Isabelle
  imports Complex_Main
begin

section \<open>JavaScript numbers and the helpers of rpg\_core.js\<close>

text \<open>
  A JavaScript number is first modelled as a real: arithmetic is exact, and NaN and the
  infinities are not values. That is enough wherever the rounding of binary64 does not
  change what is stated. Where it does (adjustTone undoing adjustTone), the code is
  modelled again on doubles, further down. An argument a caller may leave out is a
  \<open>real option\<close>, \<open>None\<close> standing for \<open>undefined\<close>.
\<close>

type_synonym jsarg = "real option"

text \<open>The idiom \<^verbatim>\<open>x || 0\<close>: \<open>undefined\<close> gives \<open>0\<close>, a number itself (\<open>0\<close> being \<open>0\<close>).\<close>

definition orZero :: "jsarg \<Rightarrow> real" where
  "orZero x = (case x of None \<Rightarrow> 0 | Some v \<Rightarrow> v)"

text \<open>\<^verbatim>\<open>Number.prototype.clamp = function(min, max) { return Math.min(Math.max(this, min), max); }\<close>\<close>

definition clamp :: "real \<Rightarrow> real \<Rightarrow> real \<Rightarrow> real" where
  "clamp this lo hi = min (max this lo) hi"

text \<open>\<^verbatim>\<open>Math.round\<close>: the nearest integer, a tie going up.\<close>

definition round_int :: "real \<Rightarrow> int" where
  "round_int x = \<lfloor>x + 1 / 2\<rfloor>"

definition Math_round :: "real \<Rightarrow> real" where
  "Math_round x = of_int (round_int x)"

text \<open>
  The decimal text of an integer-valued number, as string concatenation produces it
  (\<^verbatim>\<open>'rgb(' + r\<close>), for magnitudes below \<open>10^21\<close>; from there on JavaScript
  writes an exponent, which no caller here reaches: every channel passed is clamped.
\<close>

definition digit_char :: "nat \<Rightarrow> char" where
  "digit_char d = ''0123456789'' ! d"

fun nat_to_string :: "nat \<Rightarrow> string" where
  "nat_to_string n =
     (if n < 10 then [digit_char n] else nat_to_string (n div 10) @ [digit_char (n mod 10)])"

declare nat_to_string.simps [simp del]

definition int_to_string :: "int \<Rightarrow> string" where
  "int_to_string i = (if i < 0 then CHR ''-'' # nat_to_string (nat (- i)) else nat_to_string (nat i))"

text \<open>\<^verbatim>\<open>Utils.rgbToCssColor\<close>\<close>

definition rgbToCssColor :: "real \<Rightarrow> real \<Rightarrow> real \<Rightarrow> string" where
  "rgbToCssColor r0 g0 b0 =
     (let r = round_int r0;
          g = round_int g0;
          b = round_int b0
      in ''rgb('' @ int_to_string r @ '','' @ int_to_string g @ '','' @ int_to_string b @ '')'')"

text \<open>
  Writing at an index of a JavaScript array: inside the array the element is replaced, at
  the index just past the end the array grows by one. (The source never writes further
  out: \<open>temp\<close> is filled at 0, 1, 2, 3 in this order, and the matrix at 0..15.)
\<close>

definition array_set :: "'a list \<Rightarrow> nat \<Rightarrow> 'a \<Rightarrow> 'a list" where
  "array_set xs i v = (if i < length xs then xs[i := v] else xs @ [v])"

section \<open>ToneFilter: the colour matrix\<close>

record ToneFilter =
  uniforms_matrix_value :: "real list"
  fragmentSrc :: "string list"

definition identity_matrix :: "real list" where
  "identity_matrix = [1,0,0,0, 0,1,0,0, 0,0,1,0, 0,0,0,1]"

definition ToneFilter_initialize :: ToneFilter where
  "ToneFilter_initialize =
     \<lparr> uniforms_matrix_value = identity_matrix,
       fragmentSrc =
         [''precision mediump float;'',
          ''varying vec2 vTextureCoord;'',
          ''varying vec4 vColor;'',
          ''uniform mat4 matrix;'',
          ''uniform sampler2D uSampler;'',
          ''void main(void) {'',
          ''   gl_FragColor = texture2D(uSampler, vTextureCoord) * matrix;'',
          ''}''] \<rparr>"

definition ToneFilter_reset :: "ToneFilter \<Rightarrow> ToneFilter" where
  "ToneFilter_reset f = f\<lparr>uniforms_matrix_value := identity_matrix\<rparr>"

subsection \<open>The loops of \_multiplyMatrix\<close>

text \<open>
  Sums and products are exact in this section; \<open>sum_column64\<close> further down is the same
  loop with every step rounded, and with the infinities and NaN.
\<close>

text \<open>\<^verbatim>\<open>for (m = 0; m < 4; m++) temp[m] = value[i * 4 + m];\<close>\<close>

definition copy_row :: "real list \<Rightarrow> nat \<Rightarrow> real list \<Rightarrow> real list" where
  "copy_row mvalue i temp =
     fold (\<lambda>m t. array_set t m (mvalue ! (i * 4 + m))) [0..<4] temp"

text \<open>\<^verbatim>\<open>val = 0; for (n = 0; n < 4; n++) val += matrix[n * 4 + j] * temp[n];\<close>\<close>

definition sum_column :: "real list \<Rightarrow> real list \<Rightarrow> nat \<Rightarrow> real" where
  "sum_column matrix temp j =
     fold (\<lambda>n val. val + matrix ! (n * 4 + j) * temp ! n) [0..<4] 0"

text \<open>\<^verbatim>\<open>for (j = 0; j < 4; j++) { ...; value[i * 4 + j] = val; }\<close>\<close>

definition write_row :: "real list \<Rightarrow> real list \<Rightarrow> nat \<Rightarrow> real list \<Rightarrow> real list" where
  "write_row matrix temp i mvalue =
     fold (\<lambda>j v. array_set v (i * 4 + j) (sum_column matrix temp j)) [0..<4] mvalue"

text \<open>The outer loop over the rows; \<open>temp\<close> starts as the empty array.\<close>

definition multiply_rows :: "real list \<Rightarrow> real list \<Rightarrow> real list" where
  "multiply_rows matrix mvalue =
     fst (fold (\<lambda>i (v, temp).
                  let temp' = copy_row v i temp
                  in (write_row matrix temp' i v, temp'))
               [0..<4] (mvalue, []))"

definition multiplyMatrix :: "real list \<Rightarrow> ToneFilter \<Rightarrow> ToneFilter" where
  "multiplyMatrix matrix f =
     f\<lparr>uniforms_matrix_value := multiply_rows matrix (uniforms_matrix_value f)\<rparr>"

subsection \<open>The three adjustments\<close>

definition hue_matrix :: "real \<Rightarrow> real list" where
  "hue_matrix v =
     (let c = cos (v * pi);
          s = sin (v * pi);
          a00 = 0.213 + c * 0.787 - s * 0.213;
          a01 = 0.715 - c * 0.715 - s * 0.715;
          a02 = 0.072 - c * 0.072 + s * 0.928;
          a10 = 0.213 - c * 0.213 + s * 0.143;
          a11 = 0.715 + c * 0.285 + s * 0.140;
          a12 = 0.072 - c * 0.072 - s * 0.283;
          a20 = 0.213 - c * 0.213 - s * 0.787;
          a21 = 0.715 - c * 0.715 + s * 0.715;
          a22 = 0.072 + c * 0.928 + s * 0.072
      in [a00, a01, a02, 0,
          a10, a11, a12, 0,
          a20, a21, a22, 0,
            0,   0,   0, 1])"

definition adjustHue :: "jsarg \<Rightarrow> ToneFilter \<Rightarrow> ToneFilter" where
  "adjustHue v0 f =
     (let v = orZero v0 / 180
      in if v \<noteq> 0 then multiplyMatrix (hue_matrix v) f else f)"

definition saturation_matrix :: "real \<Rightarrow> real list" where
  "saturation_matrix v =
     (let a = 1 + v;
          a00 = 0.213 + 0.787 * a;
          a01 = 0.715 - 0.715 * a;
          a02 = 0.072 - 0.072 * a;
          a10 = 0.213 - 0.213 * a;
          a11 = 0.715 + 0.285 * a;
          a12 = 0.072 - 0.072 * a;
          a20 = 0.213 - 0.213 * a;
          a21 = 0.715 - 0.715 * a;
          a22 = 0.072 + 0.928 * a
      in [a00, a01, a02, 0,
          a10, a11, a12, 0,
          a20, a21, a22, 0,
            0,   0,   0, 1])"

definition adjustSaturation :: "jsarg \<Rightarrow> ToneFilter \<Rightarrow> ToneFilter" where
  "adjustSaturation v0 f =
     (let v = clamp (orZero v0) (-255) 255 / 255
      in if v \<noteq> 0 then multiplyMatrix (saturation_matrix v) f else f)"

definition tone_matrix :: "real \<Rightarrow> real \<Rightarrow> real \<Rightarrow> real list" where
  "tone_matrix r g b =
     [1, 0, 0, r,
      0, 1, 0, g,
      0, 0, 1, b,
      0, 0, 0, 1]"

definition adjustTone :: "jsarg \<Rightarrow> jsarg \<Rightarrow> jsarg \<Rightarrow> ToneFilter \<Rightarrow> ToneFilter" where
  "adjustTone r0 g0 b0 f =
     (let r = clamp (orZero r0) (-255) 255 / 255;
          g = clamp (orZero g0) (-255) 255 / 255;
          b = clamp (orZero b0) (-255) 255 / 255
      in if r \<noteq> 0 \<or> g \<noteq> 0 \<or> b \<noteq> 0 then multiplyMatrix (tone_matrix r g b) f else f)"






definition col :: "real list \<Rightarrow> nat \<Rightarrow> real list" where
  "col m j = [m ! j, m ! (4 + j), m ! (8 + j), m ! (12 + j)]"

text \<open>
  The product of two row-major 4x4 arrays in the usual sense: entry (i, j) of \<open>X \<times> Y\<close>
  is the sum over n of \<open>X(i, n) * Y(n, j)\<close>.
\<close>

definition mat_mul :: "real list \<Rightarrow> real list \<Rightarrow> real list" where
  "mat_mul X Y =
     map (\<lambda>k. \<Sum>n \<leftarrow> [0..<4]. X ! ((k div 4) * 4 + n) * Y ! (n * 4 + k mod 4)) [0..<16]"

section \<open>The canvas context\<close>

text \<open>
  The 2D context of the browser, as far as the sprites use it: the drawing state,
  the stack that \<open>save\<close> and \<open>restore\<close> work on, and the fills issued so far, each with
  the drawing state it was issued under and its rectangle. The pixels of the target
  change through \<open>fillRect\<close> only, so the list of fills stands for the pixel buffer.
\<close>

record drawing_state =
  transform :: "real \<times> real \<times> real \<times> real \<times> real \<times> real"
  globalCompositeOperation :: string
  globalAlpha :: real
  fillStyle :: string

type_synonym rect = "real \<times> real \<times> real \<times> real"

record canvas_context =
  current :: drawing_state
  saved :: "drawing_state list"
  fills :: "(drawing_state \<times> rect) list"

definition context_save :: "canvas_context \<Rightarrow> canvas_context" where
  "context_save c = c\<lparr>saved := current c # saved c\<rparr>"

definition context_restore :: "canvas_context \<Rightarrow> canvas_context" where
  "context_restore c =
     (case saved c of [] \<Rightarrow> c | s # ss \<Rightarrow> c\<lparr>current := s, saved := ss\<rparr>)"

definition setTransform ::
  "real \<Rightarrow> real \<Rightarrow> real \<Rightarrow> real \<Rightarrow> real \<Rightarrow> real \<Rightarrow> canvas_context \<Rightarrow> canvas_context" where
  "setTransform a b c d e f ctx = ctx\<lparr>current := (current ctx)\<lparr>transform := (a, b, c, d, e, f)\<rparr>\<rparr>"

definition set_globalCompositeOperation :: "string \<Rightarrow> canvas_context \<Rightarrow> canvas_context" where
  "set_globalCompositeOperation v ctx = ctx\<lparr>current := (current ctx)\<lparr>globalCompositeOperation := v\<rparr>\<rparr>"

definition set_globalAlpha :: "real \<Rightarrow> canvas_context \<Rightarrow> canvas_context" where
  "set_globalAlpha v ctx = ctx\<lparr>current := (current ctx)\<lparr>globalAlpha := v\<rparr>\<rparr>"

definition set_fillStyle :: "string \<Rightarrow> canvas_context \<Rightarrow> canvas_context" where
  "set_fillStyle v ctx = ctx\<lparr>current := (current ctx)\<lparr>fillStyle := v\<rparr>\<rparr>"

definition fillRect :: "real \<Rightarrow> real \<Rightarrow> real \<Rightarrow> real \<Rightarrow> canvas_context \<Rightarrow> canvas_context" where
  "fillRect x y w h ctx = ctx\<lparr>fills := fills ctx @ [(current ctx, (x, y, w, h))]\<rparr>"

text \<open>
  \<open>Graphics\<close> is defined further down rpg\_core.js than the part at hand; what the sprites
  read from it is taken as given.
\<close>

record Graphics =
  width :: real
  height :: real
  canUseSaturationBlend :: bool
  canUseDifferenceBlend :: bool

record world_transform =
  wt_a :: real
  wt_b :: real
  wt_c :: real
  wt_d :: real
  wt_tx :: real
  wt_ty :: real

record renderSession =
  rs_context :: canvas_context
  resolution :: real

section \<open>ToneSprite\<close>

record ToneSprite =
  ts_red :: real
  ts_green :: real
  ts_blue :: real
  ts_gray :: real
  visible :: bool
  worldTransform :: world_transform

definition ToneSprite_clear :: "ToneSprite \<Rightarrow> ToneSprite" where
  "ToneSprite_clear this = this\<lparr>ts_red := 0, ts_green := 0, ts_blue := 0, ts_gray := 0\<rparr>"

definition setTone :: "jsarg \<Rightarrow> jsarg \<Rightarrow> jsarg \<Rightarrow> jsarg \<Rightarrow> ToneSprite \<Rightarrow> ToneSprite" where
  "setTone r g b gray this =
     this\<lparr>ts_red := clamp (Math_round (orZero r)) (-255) 255,
          ts_green := clamp (Math_round (orZero g)) (-255) 255,
          ts_blue := clamp (Math_round (orZero b)) (-255) 255,
          ts_gray := clamp (Math_round (orZero gray)) 0 255\<rparr>"

definition ToneSprite_renderCanvas :: "Graphics \<Rightarrow> ToneSprite \<Rightarrow> renderSession \<Rightarrow> renderSession" where
  "ToneSprite_renderCanvas G this rs =
     (if visible this then
        let c0 = rs_context rs;
            t = worldTransform this;
            r = resolution rs;
            w = width G;
            h = height G;
            c1 = context_save c0;
            c2 = setTransform (wt_a t) (wt_b t) (wt_c t) (wt_d t) (wt_tx t * r) (wt_ty t * r) c1;
            c3 = (if canUseSaturationBlend G \<and> ts_gray this > 0 then
                    let k1 = set_globalCompositeOperation ''saturation'' c2;
                        k2 = set_globalAlpha (ts_gray this / 255) k1;
                        k3 = set_fillStyle ''#ffffff'' k2
                    in fillRect 0 0 w h k3
                  else c2);
            c4 = set_globalAlpha 1 c3;
            r1 = max 0 (ts_red this);
            g1 = max 0 (ts_green this);
            b1 = max 0 (ts_blue this);
            c5 = (if r1 \<noteq> 0 \<or> g1 \<noteq> 0 \<or> b1 \<noteq> 0 then
                    let k1 = set_globalCompositeOperation ''lighter'' c4;
                        k2 = set_fillStyle (rgbToCssColor r1 g1 b1) k1
                    in fillRect 0 0 w h k2
                  else c4);
            c6 = (if canUseDifferenceBlend G then
                    let r2 = max 0 (- ts_red this);
                        g2 = max 0 (- ts_green this);
                        b2 = max 0 (- ts_blue this)
                    in if r2 \<noteq> 0 \<or> g2 \<noteq> 0 \<or> b2 \<noteq> 0 then
                         let k1 = set_globalCompositeOperation ''difference'' c5;
                             k2 = set_fillStyle ''#ffffff'' k1;
                             k3 = fillRect 0 0 w h k2;
                             k4 = set_globalCompositeOperation ''lighter'' k3;
                             k5 = set_fillStyle (rgbToCssColor r2 g2 b2) k4;
                             k6 = fillRect 0 0 w h k5;
                             k7 = set_globalCompositeOperation ''difference'' k6;
                             k8 = set_fillStyle ''#ffffff'' k7
                         in fillRect 0 0 w h k8
                       else c5
                  else c5);
            c7 = context_restore c6
        in rs\<lparr>rs_context := c7\<rparr>
      else rs)"

section \<open>ScreenSprite\<close>

text \<open>
  The colour state of the sprite, and the calls it has made to \<open>fillAll\<close> of its bitmap
  (each with the colour text passed): these are its repaint requests.
\<close>

record ScreenSprite =
  ss_red :: real
  ss_green :: real
  ss_blue :: real
  colorText :: string
  bitmap_fillAll :: "string list"

definition setColor :: "jsarg \<Rightarrow> jsarg \<Rightarrow> jsarg \<Rightarrow> ScreenSprite \<Rightarrow> ScreenSprite" where
  "setColor r0 g0 b0 this =
     (if Some (ss_red this) \<noteq> r0 \<or> Some (ss_green this) \<noteq> g0 \<or> Some (ss_blue this) \<noteq> b0 then
        let r = clamp (Math_round (orZero r0)) 0 255;
            g = clamp (Math_round (orZero g0)) 0 255;
            b = clamp (Math_round (orZero b0)) 0 255;
            css = rgbToCssColor r g b
        in this\<lparr>ss_red := r, ss_green := g, ss_blue := b, colorText := css,
                bitmap_fillAll := bitmap_fillAll this @ [css]\<rparr>
      else this)"

definition setBlack :: "ScreenSprite \<Rightarrow> ScreenSprite" where
  "setBlack this = setColor (Some 0) (Some 0) (Some 0) this"

definition setWhite :: "ScreenSprite \<Rightarrow> ScreenSprite" where
  "setWhite this = setColor (Some 255) (Some 255) (Some 255) this"

text \<open>\<open>initialize\<close>: the colour starts unset (-1) with a fresh bitmap, then \<open>setBlack\<close>.\<close>

definition ScreenSprite_initialize :: ScreenSprite where
  "ScreenSprite_initialize =
     setBlack \<lparr> ss_red = -1, ss_green = -1, ss_blue = -1, colorText = [], bitmap_fillAll = [] \<rparr>"

section \<open>The same arithmetic in binary64\<close>

text \<open>
  JavaScript computes in IEEE 754 binary64. Where a statement depends on the rounding,
  the code is modelled a second time with every product, sum and quotient rounded to
  nearest, ties to even. A finite double is a real \<open>m * 2^k\<close> with \<open>|m| < 2^53\<close> and
  \<open>k \<ge> -1074\<close>; a result whose rounded magnitude reaches \<open>2^1024\<close> is an infinity; NaN
  comes from \<open>0 * Infinity\<close> and \<open>Infinity - Infinity\<close>. The two zeros are one value here:
  no operation of the code at hand tells them apart.
\<close>

text \<open>The nearest integer, a tie going to the even one.\<close>

definition round_even :: "real \<Rightarrow> int" where
  "round_even y =
     (let f = \<lfloor>y\<rfloor>; d = y - of_int f
      in if d < 1 / 2 then f else if 1 / 2 < d then f + 1 else if even f then f else f + 1)"

text \<open>
  The binary exponent of a number, not below that of the smallest normal double, and the
  spacing of the doubles around it (\<open>2^-1074\<close> in the subnormal range).
\<close>

definition binade :: "real \<Rightarrow> int" where
  "binade x = (if x = 0 then - 1022 else max \<lfloor>log 2 \<bar>x\<bar>\<rfloor> (- 1022))"

definition ulp :: "real \<Rightarrow> real" where
  "ulp x = 2 powi (binade x - 52)"

text \<open>Rounding to 53 significant bits, before the check for overflow.\<close>

definition rnd :: "real \<Rightarrow> real" where
  "rnd x = (if x = 0 then 0 else of_int (round_even (x / ulp x)) * ulp x)"

definition representable :: "real \<Rightarrow> bool" where
  "representable x \<longleftrightarrow> (\<exists>m k. \<bar>m\<bar> < 2 ^ 53 \<and> - 1074 \<le> k \<and> x = of_int m * 2 powi k)"

datatype double = Fin real | PInf | NInf | NaN

definition round_to_double :: "real \<Rightarrow> double" where
  "round_to_double x =
     (let y = rnd x
      in if 2 ^ 1024 \<le> y then PInf else if y \<le> - (2 ^ 1024) then NInf else Fin y)"

text \<open>\<^verbatim>\<open>*\<close> and \<^verbatim>\<open>+\<close> on doubles.\<close>

fun fmul :: "double \<Rightarrow> double \<Rightarrow> double" where
  "fmul NaN _ = NaN"
| "fmul _ NaN = NaN"
| "fmul (Fin x) (Fin y) = round_to_double (x * y)"
| "fmul (Fin x) PInf = (if x = 0 then NaN else if 0 < x then PInf else NInf)"
| "fmul (Fin x) NInf = (if x = 0 then NaN else if 0 < x then NInf else PInf)"
| "fmul PInf (Fin y) = (if y = 0 then NaN else if 0 < y then PInf else NInf)"
| "fmul NInf (Fin y) = (if y = 0 then NaN else if 0 < y then NInf else PInf)"
| "fmul PInf PInf = PInf"
| "fmul PInf NInf = NInf"
| "fmul NInf PInf = NInf"
| "fmul NInf NInf = PInf"

fun fadd :: "double \<Rightarrow> double \<Rightarrow> double" where
  "fadd NaN _ = NaN"
| "fadd _ NaN = NaN"
| "fadd (Fin x) (Fin y) = round_to_double (x + y)"
| "fadd (Fin x) PInf = PInf"
| "fadd (Fin x) NInf = NInf"
| "fadd PInf (Fin y) = PInf"
| "fadd NInf (Fin y) = NInf"
| "fadd PInf PInf = PInf"
| "fadd PInf NInf = NaN"
| "fadd NInf PInf = NaN"
| "fadd NInf NInf = NInf"

text \<open>\<^verbatim>\<open>x / 255\<close>\<close>

fun div255 :: "double \<Rightarrow> double" where
  "div255 (Fin x) = round_to_double (x / 255)"
| "div255 PInf = PInf"
| "div255 NInf = NInf"
| "div255 NaN = NaN"

text \<open>\<^verbatim>\<open>Math.max\<close> and \<^verbatim>\<open>Math.min\<close>: NaN if an argument is NaN.\<close>

fun dle :: "double \<Rightarrow> double \<Rightarrow> bool" where
  "dle (Fin x) (Fin y) = (x \<le> y)"
| "dle NInf _ = True"
| "dle _ PInf = True"
| "dle _ _ = False"

definition Math_max :: "double \<Rightarrow> double \<Rightarrow> double" where
  "Math_max a b = (if a = NaN \<or> b = NaN then NaN else if dle a b then b else a)"

definition Math_min :: "double \<Rightarrow> double \<Rightarrow> double" where
  "Math_min a b = (if a = NaN \<or> b = NaN then NaN else if dle a b then a else b)"

definition clamp64 :: "double \<Rightarrow> double \<Rightarrow> double \<Rightarrow> double" where
  "clamp64 this lo hi = Math_min (Math_max this lo) hi"

text \<open>\<^verbatim>\<open>x || 0\<close>: \<open>undefined\<close>, NaN and \<open>0\<close> give \<open>0\<close>.\<close>

definition orZero64 :: "double option \<Rightarrow> double" where
  "orZero64 x = (case x of None \<Rightarrow> Fin 0 | Some NaN \<Rightarrow> Fin 0 | Some v \<Rightarrow> v)"

record ToneFilter64 =
  uniforms_matrix_value64 :: "double list"
  fragmentSrc64 :: "string list"

definition identity_matrix64 :: "double list" where
  "identity_matrix64 =
     [Fin 1, Fin 0, Fin 0, Fin 0,
      Fin 0, Fin 1, Fin 0, Fin 0,
      Fin 0, Fin 0, Fin 1, Fin 0,
      Fin 0, Fin 0, Fin 0, Fin 1]"

definition ToneFilter64_initialize :: ToneFilter64 where
  "ToneFilter64_initialize =
     \<lparr> uniforms_matrix_value64 = identity_matrix64,
       fragmentSrc64 = fragmentSrc ToneFilter_initialize \<rparr>"

text \<open>The loops of \_multiplyMatrix again, statement by statement.\<close>

definition copy_row64 :: "double list \<Rightarrow> nat \<Rightarrow> double list \<Rightarrow> double list" where
  "copy_row64 mvalue i temp =
     fold (\<lambda>m t. array_set t m (mvalue ! (i * 4 + m))) [0..<4] temp"

definition sum_column64 :: "double list \<Rightarrow> double list \<Rightarrow> nat \<Rightarrow> double" where
  "sum_column64 matrix temp j =
     fold (\<lambda>n val. fadd val (fmul (matrix ! (n * 4 + j)) (temp ! n))) [0..<4] (Fin 0)"

definition write_row64 :: "double list \<Rightarrow> double list \<Rightarrow> nat \<Rightarrow> double list \<Rightarrow> double list" where
  "write_row64 matrix temp i mvalue =
     fold (\<lambda>j v. array_set v (i * 4 + j) (sum_column64 matrix temp j)) [0..<4] mvalue"

definition multiply_rows64 :: "double list \<Rightarrow> double list \<Rightarrow> double list" where
  "multiply_rows64 matrix mvalue =
     fst (fold (\<lambda>i (v, temp).
                  let temp' = copy_row64 v i temp
                  in (write_row64 matrix temp' i v, temp'))
               [0..<4] (mvalue, []))"

definition multiplyMatrix64 :: "double list \<Rightarrow> ToneFilter64 \<Rightarrow> ToneFilter64" where
  "multiplyMatrix64 matrix f =
     f\<lparr>uniforms_matrix_value64 := multiply_rows64 matrix (uniforms_matrix_value64 f)\<rparr>"

definition tone_matrix64 :: "double \<Rightarrow> double \<Rightarrow> double \<Rightarrow> double list" where
  "tone_matrix64 r g b =
     [Fin 1, Fin 0, Fin 0, r,
      Fin 0, Fin 1, Fin 0, g,
      Fin 0, Fin 0, Fin 1, b,
      Fin 0, Fin 0, Fin 0, Fin 1]"

definition adjustTone64 ::
  "double option \<Rightarrow> double option \<Rightarrow> double option \<Rightarrow> ToneFilter64 \<Rightarrow> ToneFilter64" where
  "adjustTone64 r0 g0 b0 f =
     (let r = div255 (clamp64 (orZero64 r0) (Fin (- 255)) (Fin 255));
          g = div255 (clamp64 (orZero64 g0) (Fin (- 255)) (Fin 255));
          b = div255 (clamp64 (orZero64 b0) (Fin (- 255)) (Fin 255))
      in if r \<noteq> Fin 0 \<or> g \<noteq> Fin 0 \<or> b \<noteq> Fin 0
         then multiplyMatrix64 (tone_matrix64 r g b) f else f)"

text \<open>adjustTone(r, g, b) and then adjustTone(-r, -g, -b), for numbers r, g, b.\<close>

definition tone_there_and_back :: "real \<Rightarrow> real \<Rightarrow> real \<Rightarrow> ToneFilter64 \<Rightarrow> ToneFilter64" where
  "tone_there_and_back r g b f =
     adjustTone64 (Some (Fin (- r))) (Some (Fin (- g))) (Some (Fin (- b)))
       (adjustTone64 (Some (Fin r)) (Some (Fin g)) (Some (Fin b)) f)"

section \<open>Notions used in the statements\<close>



text \<open>The hue matrix as a function of the cosine and the sine that adjustHue computes.\<close>

definition hue_cs :: "real \<Rightarrow> real \<Rightarrow> real list" where
  "hue_cs c s =
     [0.213 + c * 0.787 - s * 0.213, 0.715 - c * 0.715 - s * 0.715, 0.072 - c * 0.072 + s * 0.928, 0,
      0.213 - c * 0.213 + s * 0.143, 0.715 + c * 0.285 + s * 0.140, 0.072 - c * 0.072 - s * 0.283, 0,
      0.213 - c * 0.213 - s * 0.787, 0.715 - c * 0.715 + s * 0.715, 0.072 + c * 0.928 + s * 0.072, 0,
      0, 0, 0, 1]"

text \<open>
  What a hue rotation followed by its opposite leaves of an entry, beyond the identity:
  \<open>e\<close> and \<open>f\<close> are products of the three-digit coefficients that would be 0 for an
  exact rotation.
\<close>

definition dev :: "real \<Rightarrow> real \<Rightarrow> real \<Rightarrow> real \<Rightarrow> real" where
  "dev c s e f = - (s * s) * e + s * (c - 1) * f"

text \<open>Clamping to [lo, hi], said by cases.\<close>

definition spec_clamp :: "real \<Rightarrow> real \<Rightarrow> real \<Rightarrow> real" where
  "spec_clamp lo hi x = (if x < lo then lo else if hi < x then hi else x)"

text \<open>
  The three stages of the compositing pass in the words of the specification, to compare
  the code with. A full-screen fill is a \<open>fillRect(0, 0, width, height)\<close> under the
  sprite's transform, with a blend mode, an alpha and a colour.
\<close>

definition full_screen_fill ::
  "Graphics \<Rightarrow> ToneSprite \<Rightarrow> renderSession \<Rightarrow> string \<Rightarrow> real \<Rightarrow> string \<Rightarrow> drawing_state \<times> rect" where
  "full_screen_fill G this rs blend alpha colour =
     (let t = worldTransform this; r = resolution rs
      in (\<lparr>transform = (wt_a t, wt_b t, wt_c t, wt_d t, wt_tx t * r, wt_ty t * r),
           globalCompositeOperation = blend,
           globalAlpha = alpha,
           fillStyle = colour\<rparr>,
          (0, 0, width G, height G)))"

definition spec_stage1 :: "Graphics \<Rightarrow> ToneSprite \<Rightarrow> renderSession \<Rightarrow> (drawing_state \<times> rect) list" where
  "spec_stage1 G this rs =
     (if canUseSaturationBlend G \<and> ts_gray this > 0
      then [full_screen_fill G this rs ''saturation'' (ts_gray this / 255) ''#ffffff'']
      else [])"

definition spec_stage2 :: "Graphics \<Rightarrow> ToneSprite \<Rightarrow> renderSession \<Rightarrow> (drawing_state \<times> rect) list" where
  "spec_stage2 G this rs =
     (let r1 = max 0 (ts_red this); g1 = max 0 (ts_green this); b1 = max 0 (ts_blue this)
      in if r1 \<noteq> 0 \<or> g1 \<noteq> 0 \<or> b1 \<noteq> 0
         then [full_screen_fill G this rs ''lighter'' 1 (rgbToCssColor r1 g1 b1)]
         else [])"

definition spec_stage3 :: "Graphics \<Rightarrow> ToneSprite \<Rightarrow> renderSession \<Rightarrow> (drawing_state \<times> rect) list" where
  "spec_stage3 G this rs =
     (let r2 = max 0 (- ts_red this); g2 = max 0 (- ts_green this); b2 = max 0 (- ts_blue this)
      in if canUseDifferenceBlend G \<and> (r2 \<noteq> 0 \<or> g2 \<noteq> 0 \<or> b2 \<noteq> 0)
         then [full_screen_fill G this rs ''difference'' 1 ''#ffffff'',
               full_screen_fill G this rs ''lighter'' 1 (rgbToCssColor r2 g2 b2),
               full_screen_fill G this rs ''difference'' 1 ''#ffffff'']
         else [])"

text \<open>Sample inputs for the instances below.\<close>

definition sample_graphics :: Graphics where
  "sample_graphics =
     \<lparr>width = 816, height = 624, canUseSaturationBlend = True, canUseDifferenceBlend = True\<rparr>"

definition sample_session :: renderSession where
  "sample_session =
     \<lparr>rs_context =
        \<lparr>current = \<lparr>transform = (1, 0, 0, 1, 0, 0), globalCompositeOperation = ''source-over'',
                     globalAlpha = 1 / 2, fillStyle = ''#000000''\<rparr>,
         saved = [],
         fills = []\<rparr>,
      resolution = 2\<rparr>"

definition sample_sprite :: ToneSprite where
  "sample_sprite =
     \<lparr>ts_red = 68, ts_green = -34, ts_blue = 0, ts_gray = 51, visible = True,
      worldTransform = \<lparr>wt_a = 1, wt_b = 0, wt_c = 0, wt_d = 1, wt_tx = 3, wt_ty = 4\<rparr>\<rparr>"

text \<open>
  A stored entry that is a finite double, the number it holds, and what it means for
  row \<open>i\<close> of a matrix to be restored up to rounding: the first three columns are the
  same, the 4th is a finite double within the allowance of the one before.
\<close>

definition finite_double :: "double \<Rightarrow> bool" where
  "finite_double d = (case d of Fin v \<Rightarrow> representable v | _ \<Rightarrow> False)"

definition real_of :: "double \<Rightarrow> real" where
  "real_of d = (case d of Fin v \<Rightarrow> v | _ \<Rightarrow> 0)"

definition rounding_allowance :: "real \<Rightarrow> real \<Rightarrow> real \<Rightarrow> real \<Rightarrow> real" where
  "rounding_allowance v0 v1 v2 v3 =
     (\<bar>v0\<bar> + \<bar>v1\<bar> + \<bar>v2\<bar> + \<bar>v3\<bar>) / 2 ^ 49 + 2 powi (- 1070)"

definition row_restored :: "double list \<Rightarrow> double list \<Rightarrow> nat \<Rightarrow> bool" where
  "row_restored m m' i \<longleftrightarrow>
     m' ! (4 * i) = m ! (4 * i) \<and> m' ! (4 * i + 1) = m ! (4 * i + 1)
     \<and> m' ! (4 * i + 2) = m ! (4 * i + 2)
     \<and> finite_double (m' ! (4 * i + 3))
     \<and> \<bar>real_of (m' ! (4 * i + 3)) - real_of (m ! (4 * i + 3))\<bar>
         \<le> rounding_allowance (real_of (m ! (4 * i))) (real_of (m ! (4 * i + 1)))
              (real_of (m ! (4 * i + 2))) (real_of (m ! (4 * i + 3)))"

text \<open>
  What adjustTone makes of a channel argument, and of a row: the three products summed
  in the order of the loop, then the 4th entry added, each step rounded.
\<close>

definition rho :: "real \<Rightarrow> real" where
  "rho r = rnd (clamp r (- 255) 255 / 255)"

definition tone_sum :: "real \<Rightarrow> real \<Rightarrow> real \<Rightarrow> real \<Rightarrow> real \<Rightarrow> real \<Rightarrow> real" where
  "tone_sum a b c v0 v1 v2 = rnd (rnd (rnd (a * v0) + rnd (b * v1)) + rnd (c * v2))"

definition tone_col :: "real \<Rightarrow> real \<Rightarrow> real \<Rightarrow> real \<Rightarrow> real \<Rightarrow> real \<Rightarrow> real \<Rightarrow> real" where
  "tone_col a b c v0 v1 v2 v3 = rnd (tone_sum a b c v0 v1 v2 + v3)"

definition tone_step :: "real \<Rightarrow> real \<Rightarrow> real \<Rightarrow> real list \<Rightarrow> real list" where
  "tone_step a b c vs =
     [vs ! 0, vs ! 1, vs ! 2, tone_col a b c (vs ! 0) (vs ! 1) (vs ! 2) (vs ! 3),
      vs ! 4, vs ! 5, vs ! 6, tone_col a b c (vs ! 4) (vs ! 5) (vs ! 6) (vs ! 7),
      vs ! 8, vs ! 9, vs ! 10, tone_col a b c (vs ! 8) (vs ! 9) (vs ! 10) (vs ! 11),
      vs ! 12, vs ! 13, vs ! 14, tone_col a b c (vs ! 12) (vs ! 13) (vs ! 14) (vs ! 15)]"

text \<open>
  The doubles nearest 0.2 and 0.4, the double just above the one nearest 0.6 (printed
  0.6000000000000001), and the double two places above the one nearest 0.2 (printed
  0.20000000000000007).
\<close>

definition d02 :: real where "d02 = 7205759403792794 / 2 ^ 55"

definition d04 :: real where "d04 = 7205759403792794 / 2 ^ 54"

definition d06up :: real where "d06up = 5404319552844596 / 2 ^ 53"

definition d02up :: real where "d02up = 7205759403792796 / 2 ^ 55"

text \<open>The filter after adjustTone(51, 0, 0) on a fresh one.\<close>

definition sample_filter64 :: ToneFilter64 where
  "sample_filter64 =
     ToneFilter64_initialize
       \<lparr>uniforms_matrix_value64 := tone_matrix64 (Fin d02) (Fin 0) (Fin 0)\<rparr>"


section \<open>Facts about the matrix composition\<close>

lemma upt4: "[0..<4] = [0, 1, 2, 3]"
  by (simp add: upt_rec)

lemma upt16: "[0..<16] = [0, 1, 2, 3, 4, 5, 6, 7, 8, 9, 10, 11, 12, 13, 14, 15]"
  by (simp add: upt_rec)

lemma list16:
  assumes "length (xs :: 'a list) = 16"
  shows "\<exists>x0 x1 x2 x3 x4 x5 x6 x7 x8 x9 x10 x11 x12 x13 x14 x15.
           xs = [x0, x1, x2, x3, x4, x5, x6, x7, x8, x9, x10, x11, x12, x13, x14, x15]"
proof -
  have "length xs = Suc (Suc (Suc (Suc (Suc (Suc (Suc (Suc (Suc (Suc (Suc (Suc (Suc (Suc (Suc (Suc 0)))))))))))))))"
    using assms by simp
  then show ?thesis
    by (auto simp: length_Suc_conv)
qed

lemma multiply_rows_list:
  "multiply_rows
     [a0, a1, a2, a3, a4, a5, a6, a7, a8, a9, a10, a11, a12, a13, a14, a15]
     [v0, v1, v2, v3, v4, v5, v6, v7, v8, v9, v10, v11, v12, v13, v14, v15] =
   [a0 * v0 + a4 * v1 + a8 * v2 + a12 * v3,
    a1 * v0 + a5 * v1 + a9 * v2 + a13 * v3,
    a2 * v0 + a6 * v1 + a10 * v2 + a14 * v3,
    a3 * v0 + a7 * v1 + a11 * v2 + a15 * v3,
    a0 * v4 + a4 * v5 + a8 * v6 + a12 * v7,
    a1 * v4 + a5 * v5 + a9 * v6 + a13 * v7,
    a2 * v4 + a6 * v5 + a10 * v6 + a14 * v7,
    a3 * v4 + a7 * v5 + a11 * v6 + a15 * v7,
    a0 * v8 + a4 * v9 + a8 * v10 + a12 * v11,
    a1 * v8 + a5 * v9 + a9 * v10 + a13 * v11,
    a2 * v8 + a6 * v9 + a10 * v10 + a14 * v11,
    a3 * v8 + a7 * v9 + a11 * v10 + a15 * v11,
    a0 * v12 + a4 * v13 + a8 * v14 + a12 * v15,
    a1 * v12 + a5 * v13 + a9 * v14 + a13 * v15,
    a2 * v12 + a6 * v13 + a10 * v14 + a14 * v15,
    a3 * v12 + a7 * v13 + a11 * v14 + a15 * v15]"
  by (simp add: multiply_rows_def copy_row_def write_row_def sum_column_def array_set_def upt4)


lemma multiply_rows_mat_mul:
  assumes "length V = 16" and "length A = 16"
  shows "multiply_rows A V = mat_mul V A"
proof -
  from list16[OF assms(1)] obtain v0 v1 v2 v3 v4 v5 v6 v7 v8 v9 v10 v11 v12 v13 v14 v15 where
    V: "V = [v0, v1, v2, v3, v4, v5, v6, v7, v8, v9, v10, v11, v12, v13, v14, v15]" by blast
  from list16[OF assms(2)] obtain a0 a1 a2 a3 a4 a5 a6 a7 a8 a9 a10 a11 a12 a13 a14 a15 where
    A: "A = [a0, a1, a2, a3, a4, a5, a6, a7, a8, a9, a10, a11, a12, a13, a14, a15]" by blast
  show ?thesis unfolding V A multiply_rows_list
    by (simp add: mat_mul_def upt4 upt16 algebra_simps)
qed

subsection \<open>The direction of the composition\<close>

text \<open>
  Claim C2, as the code has it: for a stored 4x4 matrix and an incoming 4x4 matrix, both
  row-major, \_multiplyMatrix stores the product current \<times> incoming (the incoming matrix
  multiplies from the right), and changes nothing else of the filter.
\<close>

theorem multiplyMatrix_current_times_incoming:
  assumes "length (uniforms_matrix_value f) = 16" and "length A = 16"
  shows "multiplyMatrix A f = f\<lparr>uniforms_matrix_value := mat_mul (uniforms_matrix_value f) A\<rparr>"
  using assms by (simp add: multiplyMatrix_def multiply_rows_mat_mul)

theorem multiplyMatrix_current_times_incoming_witness:
  "multiplyMatrix (saturation_matrix (-1))
     \<lparr>uniforms_matrix_value = tone_matrix 1 0 0, fragmentSrc = []\<rparr>
   = \<lparr>uniforms_matrix_value =
        [0.213, 0.715, 0.072, 1,
         0.213, 0.715, 0.072, 0,
         0.213, 0.715, 0.072, 0,
         0, 0, 0, 1],
      fragmentSrc = []\<rparr>"
  using multiplyMatrix_current_times_incoming
          [of "\<lparr>uniforms_matrix_value = tone_matrix 1 0 0, fragmentSrc = []\<rparr>" "saturation_matrix (-1)"]
  by (simp add: saturation_matrix_def tone_matrix_def mat_mul_def upt4 upt16)

text \<open>
  Claim C2 as stated fails: with the tone matrix of (1, 0, 0) stored and the saturation
  matrix of -1 coming in, entry (0, 3) of the result is 1, while incoming \<times> current has
  0.213 there.
\<close>

theorem multiplyMatrix_not_incoming_times_current:
  "uniforms_matrix_value
     (multiplyMatrix (saturation_matrix (-1))
        \<lparr>uniforms_matrix_value = tone_matrix 1 0 0, fragmentSrc = []\<rparr>) ! 3 = 1
   \<and> mat_mul (saturation_matrix (-1)) (tone_matrix 1 0 0) ! 3 = 213 / 1000"
  by (simp add: multiplyMatrix_def saturation_matrix_def tone_matrix_def multiply_rows_list
      mat_mul_def upt4 upt16)

subsection \<open>The alpha row and the alpha column\<close>













subsection \<open>Adjustments that do nothing\<close>

text \<open>
  Claim C7: adjustSaturation(0) and adjustTone(0, 0, 0) leave the filter, whatever its
  matrix, exactly as it was; so do the calls with the arguments left out.
\<close>

theorem adjust_zero_noop:
  "adjustSaturation (Some 0) f = f \<and> adjustTone (Some 0) (Some 0) (Some 0) f = f
   \<and> adjustSaturation None f = f \<and> adjustTone None None None f = f"
  by (simp add: adjustSaturation_def adjustTone_def orZero_def clamp_def)

theorem adjust_zero_noop_witness:
  "adjustSaturation (Some 0) (adjustTone (Some 255) (Some 0) (Some 0) ToneFilter_initialize)
     = adjustTone (Some 255) (Some 0) (Some 0) ToneFilter_initialize
   \<and> adjustTone (Some 0) (Some 0) (Some 0) (adjustTone (Some 255) (Some 0) (Some 0) ToneFilter_initialize)
     = adjustTone (Some 255) (Some 0) (Some 0) ToneFilter_initialize"
  using adjust_zero_noop[of "adjustTone (Some 255) (Some 0) (Some 0) ToneFilter_initialize"]
  by simp

subsection \<open>A hue rotation and its opposite\<close>

lemma hue_matrix_cs: "hue_matrix v = hue_cs (cos (v * pi)) (sin (v * pi))"
  by (simp add: hue_matrix_def hue_cs_def Let_def)

lemma hue_roundtrip_cs:
  assumes "c * c + s * s = 1"
  shows "multiply_rows (hue_cs c (- s)) (multiply_rows (hue_cs c s) identity_matrix) =
     [1 + dev c s (- (53 / 250000)) (53 / 250000),
      dev c s (143 / 200000) (- (143 / 200000)),
      dev c s (- (503 / 1000000)) (503 / 1000000),
      0,
      dev c s (- (359 / 500000)) (53 / 250000),
      1 + dev c s (1 / 100000) (- (143 / 200000)),
      dev c s (177 / 250000) (503 / 1000000),
      0,
      dev c s (53 / 250000) (53 / 250000),
      dev c s (- (143 / 200000)) (- (143 / 200000)),
      1 + dev c s (503 / 1000000) (503 / 1000000),
      0,
      0, 0, 0, 1]"
  unfolding hue_cs_def identity_matrix_def multiply_rows_list dev_def
  apply simp
  apply (intro conjI)
  using assms apply algebra+
  done

lemma dev_bound:
  assumes "c * c + s * s = 1" and "\<bar>e\<bar> + 2 * \<bar>f\<bar> \<le> B"
  shows "\<bar>dev c s e f\<bar> \<le> B"
proof -
  have ss: "s * s \<le> 1" and cc: "c * c \<le> 1"
    using assms(1) zero_le_square[of c] zero_le_square[of s] by linarith+
  have s1: "\<bar>s\<bar> \<le> 1"
    using ss abs_le_square_iff[of s 1] by (simp add: power2_eq_square)
  have c1: "\<bar>c\<bar> \<le> 1"
    using cc abs_le_square_iff[of c 1] by (simp add: power2_eq_square)
  have "\<bar>s * (c - 1)\<bar> \<le> 1 * 2"
    unfolding abs_mult using s1 c1 by (intro mult_mono) auto
  then have a: "\<bar>s * (c - 1) * f\<bar> \<le> 2 * \<bar>f\<bar>"
    unfolding abs_mult[of "s * (c - 1)" f] by (intro mult_right_mono) auto
  have "\<bar>(s * s) * e\<bar> \<le> 1 * \<bar>e\<bar>"
    unfolding abs_mult[of "s * s" e] using ss by (intro mult_right_mono) auto
  then have b: "\<bar>- (s * s) * e\<bar> \<le> \<bar>e\<bar>" by simp
  have "\<bar>dev c s e f\<bar> \<le> \<bar>- (s * s) * e\<bar> + \<bar>s * (c - 1) * f\<bar>"
    unfolding dev_def by (rule abs_triangle_ineq)
  with a b assms(2) show ?thesis by linarith
qed

lemma dev_bound400:
  assumes "c * c + s * s = 1" and "\<bar>e\<bar> + 2 * \<bar>f\<bar> \<le> 1 / 400"
  shows "\<bar>dev c s e f\<bar> * 400 \<le> 1"
  using dev_bound[OF assms] by simp

lemma hue_roundtrip_near:
  assumes "c * c + s * s = 1"
  shows "list_all2 (\<lambda>x y. \<bar>x - y\<bar> \<le> 1 / 400)
           (multiply_rows (hue_cs c (- s)) (multiply_rows (hue_cs c s) identity_matrix))
           identity_matrix"
  unfolding hue_roundtrip_cs[OF assms]
  by (simp add: identity_matrix_def dev_bound400[OF assms])

lemma adjustHue_twice:
  assumes "d \<noteq> 0"
  shows "adjustHue (Some (- d)) (adjustHue (Some d) ToneFilter_initialize) =
         ToneFilter_initialize\<lparr>uniforms_matrix_value :=
           multiply_rows (hue_cs (cos (d / 180 * pi)) (- sin (d / 180 * pi)))
             (multiply_rows (hue_cs (cos (d / 180 * pi)) (sin (d / 180 * pi))) identity_matrix)\<rparr>"
  using assms
  by (simp add: adjustHue_def orZero_def multiplyMatrix_def hue_matrix_cs ToneFilter_initialize_def)

text \<open>
  Claim C6, as the code has it: for every d, adjustHue(d) and then adjustHue(-d) on the
  fresh filter give a matrix each entry of which is within 1/400 of the identity's, in
  exact arithmetic; the distance comes from the three-digit coefficients, not from rounding.
\<close>

theorem adjustHue_roundtrip_near_identity:
  "list_all2 (\<lambda>x y. \<bar>x - y\<bar> \<le> 1 / 400)
     (uniforms_matrix_value (adjustHue (Some (- d)) (adjustHue (Some d) ToneFilter_initialize)))
     identity_matrix"
proof (cases "d = 0")
  case True
  then show ?thesis
    by (simp add: adjustHue_def orZero_def ToneFilter_initialize_def identity_matrix_def)
next
  case False
  have "cos (d / 180 * pi) * cos (d / 180 * pi) + sin (d / 180 * pi) * sin (d / 180 * pi) = 1"
    using sin_cos_squared_add2[of "d / 180 * pi"] by (simp add: power2_eq_square)
  from hue_roundtrip_near[OF this] show ?thesis
    unfolding adjustHue_twice[OF False] by simp
qed

theorem adjustHue_roundtrip_near_identity_witness:
  "list_all2 (\<lambda>x y. \<bar>x - y\<bar> \<le> 1 / 400)
     [1, 0, 0, 0,
      253 / 500000, 200141 / 200000, - (1211 / 1000000), 0,
      - (53 / 125000), 143 / 100000, 499497 / 500000, 0,
      0, 0, 0, 1 :: real]
     identity_matrix"
  using adjustHue_roundtrip_near_identity[of 90] unfolding adjustHue_twice[of 90, simplified]
  by (simp add: hue_cs_def identity_matrix_def multiply_rows_list)

text \<open>
  Claim C6 as stated fails: adjustHue(90) and then adjustHue(-90) on the fresh filter
  leave 0.00143 at entry (2, 1), where the identity has 0; the other entries of the first
  three rows and columns are off by up to 0.0012 as well.
\<close>

theorem adjustHue_roundtrip_not_identity:
  "uniforms_matrix_value (adjustHue (Some (- 90)) (adjustHue (Some 90) ToneFilter_initialize))
     = [1, 0, 0, 0,
        253 / 500000, 200141 / 200000, - (1211 / 1000000), 0,
        - (53 / 125000), 143 / 100000, 499497 / 500000, 0,
        0, 0, 0, 1]
   \<and> uniforms_matrix_value (adjustHue (Some (- 90)) (adjustHue (Some 90) ToneFilter_initialize)) ! 9
       - identity_matrix ! 9 = 143 / 100000"
  unfolding adjustHue_twice[of 90, simplified]
  by (simp add: hue_cs_def identity_matrix_def multiply_rows_list)


section \<open>Facts about ToneSprite\<close>

lemma clamp_spec: "lo \<le> hi \<Longrightarrow> clamp x lo hi = spec_clamp lo hi x"
  by (simp add: clamp_def spec_clamp_def min_def max_def)

text \<open>
  Claim C8: setTone stores, for each of r, g and b, the rounded argument (0 when it is
  left out) clamped to [-255, 255], and for gray the rounded argument clamped to [0, 255];
  setTone(300, -300, 0, 400) stores (255, -255, 0, 255).
\<close>

theorem setTone_rounds_and_clamps:
  "ts_red (setTone r g b gray this) = spec_clamp (-255) 255 (Math_round (orZero r))
   \<and> ts_green (setTone r g b gray this) = spec_clamp (-255) 255 (Math_round (orZero g))
   \<and> ts_blue (setTone r g b gray this) = spec_clamp (-255) 255 (Math_round (orZero b))
   \<and> ts_gray (setTone r g b gray this) = spec_clamp 0 255 (Math_round (orZero gray))
   \<and> setTone (Some 300) (Some (-300)) (Some 0) (Some 400) this
       = this\<lparr>ts_red := 255, ts_green := -255, ts_blue := 0, ts_gray := 255\<rparr>"
  by (simp add: setTone_def clamp_spec)
     (simp add: spec_clamp_def Math_round_def round_int_def orZero_def)

theorem setTone_rounds_and_clamps_witness:
  "ts_red (setTone (Some 12.5) None (Some (-300.2)) (Some (-3)) sample_sprite) = 13
   \<and> ts_green (setTone (Some 12.5) None (Some (-300.2)) (Some (-3)) sample_sprite) = 0
   \<and> ts_blue (setTone (Some 12.5) None (Some (-300.2)) (Some (-3)) sample_sprite) = -255
   \<and> ts_gray (setTone (Some 12.5) None (Some (-300.2)) (Some (-3)) sample_sprite) = 0"
  using setTone_rounds_and_clamps[of "Some 12.5" None "Some (-300.2)" "Some (-3)" sample_sprite]
  by (simp add: spec_clamp_def Math_round_def round_int_def orZero_def)

lemmas context_defs = context_save_def context_restore_def setTransform_def set_globalAlpha_def
  set_globalCompositeOperation_def set_fillStyle_def fillRect_def

lemma css_samples:
  "rgbToCssColor 68 0 0 = ''rgb(68,0,0)''"
  "rgbToCssColor 0 34 0 = ''rgb(0,34,0)''"
  "rgbToCssColor 0 0 0 = ''rgb(0,0,0)''"
  "rgbToCssColor 255 0 0 = ''rgb(255,0,0)''"
  by (simp_all add: rgbToCssColor_def round_int_def int_to_string_def nat_to_string.simps
      digit_char_def)

text \<open>
  Claim C4: on a visible sprite the compositing pass issues, after the fills already
  there, the fills of the saturation stage, then of the lighter stage, then of the
  difference stage, each stage present only under its condition, and nothing else.
\<close>

theorem renderCanvas_stages_in_order:
  assumes "visible this"
  shows "fills (rs_context (ToneSprite_renderCanvas G this rs))
         = fills (rs_context rs)
           @ spec_stage1 G this rs @ spec_stage2 G this rs @ spec_stage3 G this rs"
  using assms
  by (auto simp add: ToneSprite_renderCanvas_def Let_def context_defs spec_stage1_def
       spec_stage2_def spec_stage3_def full_screen_fill_def)

theorem renderCanvas_stages_in_order_witness:
  "visible sample_sprite \<and>
   fills (rs_context (ToneSprite_renderCanvas sample_graphics sample_sprite sample_session)) =
     [(\<lparr>transform = (1, 0, 0, 1, 6, 8), globalCompositeOperation = ''saturation'',
        globalAlpha = 1 / 5, fillStyle = ''#ffffff''\<rparr>, (0, 0, 816, 624)),
      (\<lparr>transform = (1, 0, 0, 1, 6, 8), globalCompositeOperation = ''lighter'',
        globalAlpha = 1, fillStyle = ''rgb(68,0,0)''\<rparr>, (0, 0, 816, 624)),
      (\<lparr>transform = (1, 0, 0, 1, 6, 8), globalCompositeOperation = ''difference'',
        globalAlpha = 1, fillStyle = ''#ffffff''\<rparr>, (0, 0, 816, 624)),
      (\<lparr>transform = (1, 0, 0, 1, 6, 8), globalCompositeOperation = ''lighter'',
        globalAlpha = 1, fillStyle = ''rgb(0,34,0)''\<rparr>, (0, 0, 816, 624)),
      (\<lparr>transform = (1, 0, 0, 1, 6, 8), globalCompositeOperation = ''difference'',
        globalAlpha = 1, fillStyle = ''#ffffff''\<rparr>, (0, 0, 816, 624))]"
  using renderCanvas_stages_in_order[of sample_sprite sample_graphics sample_session]
  by (simp add: sample_sprite_def sample_graphics_def sample_session_def spec_stage1_def
       spec_stage2_def spec_stage3_def full_screen_fill_def css_samples)

text \<open>
  Claim C9: when red, green, blue and gray are all 0, or when the sprite is not visible,
  the compositing pass issues no fill: the fills of the target are those from before.
\<close>

theorem renderCanvas_zero_tone_no_fill:
  assumes "(ts_red this = 0 \<and> ts_green this = 0 \<and> ts_blue this = 0 \<and> ts_gray this = 0)
           \<or> \<not> visible this"
  shows "fills (rs_context (ToneSprite_renderCanvas G this rs)) = fills (rs_context rs)"
  using assms
  by (auto simp add: ToneSprite_renderCanvas_def Let_def context_defs)

theorem renderCanvas_zero_tone_no_fill_witness:
  "ts_red (ToneSprite_clear sample_sprite) = 0 \<and> ts_green (ToneSprite_clear sample_sprite) = 0
   \<and> ts_blue (ToneSprite_clear sample_sprite) = 0 \<and> ts_gray (ToneSprite_clear sample_sprite) = 0
   \<and> visible (ToneSprite_clear sample_sprite)
   \<and> fills (rs_context
        (ToneSprite_renderCanvas sample_graphics (ToneSprite_clear sample_sprite) sample_session)) = []"
  using renderCanvas_zero_tone_no_fill
          [of "ToneSprite_clear sample_sprite" sample_graphics sample_session]
  by (simp add: ToneSprite_clear_def sample_sprite_def sample_session_def)

text \<open>
  Claim C10: on a visible sprite the compositing pass leaves the drawing state of the
  context (transform, globalAlpha, globalCompositeOperation, fillStyle) and the stack of
  saved states as they were before the call, whichever stages ran: its \<open>save\<close> and its
  \<open>restore\<close> match.
\<close>

theorem renderCanvas_restores_drawing_state:
  assumes "visible this"
  shows "current (rs_context (ToneSprite_renderCanvas G this rs)) = current (rs_context rs)
       \<and> saved (rs_context (ToneSprite_renderCanvas G this rs)) = saved (rs_context rs)
       \<and> resolution (ToneSprite_renderCanvas G this rs) = resolution rs"
  using assms
  by (simp add: ToneSprite_renderCanvas_def Let_def context_defs)

theorem renderCanvas_restores_drawing_state_witness:
  "visible sample_sprite
   \<and> current (rs_context (ToneSprite_renderCanvas sample_graphics sample_sprite sample_session))
       = \<lparr>transform = (1, 0, 0, 1, 0, 0), globalCompositeOperation = ''source-over'',
          globalAlpha = 1 / 2, fillStyle = ''#000000''\<rparr>
   \<and> saved (rs_context (ToneSprite_renderCanvas sample_graphics sample_sprite sample_session)) = []"
  using renderCanvas_restores_drawing_state[of sample_sprite sample_graphics sample_session]
  by (simp add: sample_sprite_def sample_session_def)

section \<open>Facts about ScreenSprite\<close>

lemma ScreenSprite_initialize_value:
  "ScreenSprite_initialize =
     \<lparr>ss_red = 0, ss_green = 0, ss_blue = 0, colorText = ''rgb(0,0,0)'',
      bitmap_fillAll = [''rgb(0,0,0)'']\<rparr>"
  by (simp add: ScreenSprite_initialize_def setBlack_def setColor_def orZero_def Math_round_def
      round_int_def clamp_def css_samples Let_def)

lemma normal_channel:
  assumes "x \<in> \<int>" and "0 \<le> x" and "x \<le> 255"
  shows "clamp (Math_round (orZero (Some x))) 0 255 = x"
proof -
  from assms(1) obtain i :: int where x: "x = of_int i"
    by (auto elim: Ints_cases)
  have "\<lfloor>real_of_int i + 1 / 2\<rfloor> = i"
    by linarith
  then have "Math_round x = x"
    by (simp add: Math_round_def round_int_def x)
  with assms(2,3) show ?thesis
    by (simp add: orZero_def clamp_def)
qed

text \<open>
  Claim C3, as the code has it: for r, g, b whole numbers in [0, 255], a second
  setColor(r, g, b) right after the first changes nothing and asks for no repaint; the
  first asks for one repaint, with the recomputed colour text, when the stored colour
  differed from (r, g, b), and for none when it did not.
\<close>

theorem setColor_twice:
  assumes "r \<in> \<int>" "0 \<le> r" "r \<le> 255"
      and "g \<in> \<int>" "0 \<le> g" "g \<le> 255"
      and "b \<in> \<int>" "0 \<le> b" "b \<le> 255"
  shows "setColor (Some r) (Some g) (Some b) (setColor (Some r) (Some g) (Some b) this)
           = setColor (Some r) (Some g) (Some b) this
       \<and> bitmap_fillAll (setColor (Some r) (Some g) (Some b) this)
           = (if ss_red this = r \<and> ss_green this = g \<and> ss_blue this = b
              then bitmap_fillAll this
              else bitmap_fillAll this @ [rgbToCssColor r g b])"
  using assms
  by (simp add: setColor_def Let_def normal_channel)

theorem setColor_twice_witness:
  "setColor (Some 255) (Some 0) (Some 0)
     (setColor (Some 255) (Some 0) (Some 0) ScreenSprite_initialize)
     = setColor (Some 255) (Some 0) (Some 0) ScreenSprite_initialize
   \<and> bitmap_fillAll (setColor (Some 255) (Some 0) (Some 0) ScreenSprite_initialize)
     = [''rgb(0,0,0)'', ''rgb(255,0,0)'']"
  using setColor_twice[of 255 0 0 ScreenSprite_initialize]
  by (simp add: ScreenSprite_initialize_value css_samples)

text \<open>
  Claim C3 as stated fails: on the fresh sprite, setColor(300, 0, 0) called twice asks
  for a repaint each time, since the stored 255 is compared with the argument 300.
\<close>

theorem setColor_twice_counterexample:
  "bitmap_fillAll (setColor (Some 300) (Some 0) (Some 0) ScreenSprite_initialize)
     = [''rgb(0,0,0)'', ''rgb(255,0,0)'']
   \<and> bitmap_fillAll (setColor (Some 300) (Some 0) (Some 0)
         (setColor (Some 300) (Some 0) (Some 0) ScreenSprite_initialize))
     = [''rgb(0,0,0)'', ''rgb(255,0,0)'', ''rgb(255,0,0)'']"
  by (simp add: ScreenSprite_initialize_value setColor_def orZero_def Math_round_def
      round_int_def clamp_def css_samples Let_def)

section \<open>Facts about adjustTone in binary64\<close>

subsection \<open>Rounding to nearest, ties to even\<close>

lemma round_even_int [simp]: "round_even (of_int n) = n"
  by (simp add: round_even_def)

lemma round_even_err: "\<bar>of_int (round_even y) - y\<bar> \<le> 1 / 2"
  unfolding round_even_def Let_def by (auto; linarith)

lemma round_even_minus: "round_even (- y) = - round_even y"
proof (cases "y \<in> \<int>")
  case True
  then obtain n :: int where "y = of_int n" by (auto elim: Ints_cases)
  then have "- y = of_int (- n)" by simp
  then show ?thesis unfolding \<open>y = of_int n\<close> by (metis round_even_int)
next
  case False
  then have "y \<noteq> of_int \<lfloor>y\<rfloor>"
    by (metis Ints_of_int)
  then have "of_int \<lfloor>y\<rfloor> < y"
    using of_int_floor_le[of y] by linarith
  then have fl: "\<lfloor>- y\<rfloor> = - \<lfloor>y\<rfloor> - 1"
    by (simp add: floor_eq_iff) linarith
  show ?thesis
    unfolding round_even_def Let_def fl
    by (auto; linarith?)
qed

lemma floor_log2_iff:
  assumes "x \<noteq> 0"
  shows "\<lfloor>log 2 \<bar>x\<bar>\<rfloor> = k \<longleftrightarrow> 2 powi k \<le> \<bar>x\<bar> \<and> \<bar>x\<bar> < 2 powi (k + 1)"
proof -
  have "(2::real) powr real_of_int j = 2 powi j" for j
    by (rule powr_real_of_int') auto
  from this[of k] this[of "k + 1"] show ?thesis
    using floor_log_eq_powr_iff[of "\<bar>x\<bar>" 2 k] assms by simp
qed

lemma abs_less_binade:
  assumes "x \<noteq> 0"
  shows "\<bar>x\<bar> < 2 powi (binade x + 1)"
proof -
  have "\<bar>x\<bar> < 2 powi (\<lfloor>log 2 \<bar>x\<bar>\<rfloor> + 1)"
    using floor_log2_iff[OF assms, of "\<lfloor>log 2 \<bar>x\<bar>\<rfloor>"] by simp
  also have "\<dots> \<le> 2 powi (binade x + 1)"
    by (rule power_int_increasing) (simp_all add: binade_def assms)
  finally show ?thesis .
qed

lemma binade_le:
  assumes "x \<noteq> 0" and "\<bar>x\<bar> < 2 powi (k + 1)"
  shows "binade x \<le> max k (- 1022)"
proof -
  let ?j = "\<lfloor>log 2 \<bar>x\<bar>\<rfloor>"
  have "2 powi ?j \<le> \<bar>x\<bar>"
    using floor_log2_iff[OF assms(1), of ?j] by simp
  with assms(2) have "(2::real) powi ?j < 2 powi (k + 1)" by linarith
  then have "?j < k + 1"
    using power_int_increasing[of "k + 1" ?j "2::real"] by (cases "?j < k + 1") auto
  then show ?thesis by (simp add: binade_def assms(1))
qed

lemma binade_eq:
  assumes "2 powi k \<le> \<bar>x\<bar>" and "\<bar>x\<bar> < 2 powi (k + 1)"
  shows "binade x = max k (- 1022)"
proof -
  have "0 < (2::real) powi k" by simp
  with assms(1) have "0 < \<bar>x\<bar>" by linarith
  then have "x \<noteq> 0" by auto
  from floor_log2_iff[OF this, of k] assms this show ?thesis by (simp add: binade_def)
qed

lemma binade_abs_minus [simp]: "binade (- x) = binade x"
  by (simp add: binade_def)

lemma ulp_minus [simp]: "ulp (- x) = ulp x"
  by (simp add: ulp_def)

lemma binade_ge: "- 1022 \<le> binade x"
  by (simp add: binade_def)

lemma ulp_pos [simp]: "0 < ulp x"
  by (simp add: ulp_def)

lemma rnd_zero [simp]: "rnd 0 = 0"
  by (simp add: rnd_def)

lemma rnd_minus: "rnd (- x) = - rnd x"
  by (simp add: rnd_def round_even_minus)

lemma rnd_eval:
  assumes "2 powi k \<le> \<bar>x\<bar>" and "\<bar>x\<bar> < 2 powi (k + 1)" and "- 1022 \<le> k"
  shows "rnd x = of_int (round_even (x / 2 powi (k - 52))) * 2 powi (k - 52)"
proof -
  have "0 < (2::real) powi k" by simp
  with assms(1) have "0 < \<bar>x\<bar>" by linarith
  then have "x \<noteq> 0" by auto
  moreover have "binade x = k" using binade_eq[OF assms(1,2)] assms(3) by simp
  ultimately show ?thesis by (simp add: rnd_def ulp_def)
qed

lemma rnd_exact:
  assumes "\<bar>m\<bar> < 2 ^ 53" and "- 1074 \<le> k"
  shows "rnd (of_int m * 2 powi k) = of_int m * 2 powi k"
proof (cases "m = 0")
  case True
  then show ?thesis by simp
next
  case False
  let ?x = "real_of_int m * 2 powi k"
  have x0: "?x \<noteq> 0" using False by simp
  have "\<bar>?x\<bar> = \<bar>real_of_int m\<bar> * 2 powi k"
    by (simp add: abs_mult)
  also have "\<dots> < 2 ^ 53 * 2 powi k"
  proof (rule mult_strict_right_mono)
    from assms(1) have "real_of_int \<bar>m\<bar> < real_of_int (2 ^ 53)" by (simp only: of_int_less_iff)
    then show "\<bar>real_of_int m\<bar> < 2 ^ 53" by simp
  qed simp
  also have "\<dots> = 2 powi (k + 52 + 1)"
    by (simp add: power_int_add)
  finally have "binade ?x \<le> max (k + 52) (- 1022)"
    by (rule binade_le[OF x0])
  with assms(2) have jk: "binade ?x - 52 \<le> k" by simp
  define j where "j = binade ?x - 52"
  define n where "n = nat (k - j)"
  have kj: "k = j + int n" using jk by (simp add: j_def n_def)
  have u: "ulp ?x = 2 powi j" by (simp add: ulp_def j_def)
  have "?x / 2 powi j = real_of_int m * 2 ^ n"
    unfolding kj by (simp add: power_int_add)
  also have "\<dots> = real_of_int (m * 2 ^ n)" by simp
  finally have q: "?x / 2 powi j = real_of_int (m * 2 ^ n)" .
  have "rnd ?x = real_of_int (m * 2 ^ n) * 2 powi j"
    using x0 unfolding rnd_def u q round_even_int by simp
  also have "\<dots> = ?x"
    unfolding kj by (simp add: power_int_add)
  finally show ?thesis .
qed

lemma representable_rnd_id: "representable x \<Longrightarrow> rnd x = x"
  unfolding representable_def using rnd_exact by blast

lemma representable_minus: "representable x \<Longrightarrow> representable (- x)"
  unfolding representable_def
  apply clarify
  subgoal for m k by (rule exI[of _ "- m"], rule exI[of _ k]) simp
  done

lemma representable_0 [simp]: "representable 0"
  unfolding representable_def by (rule exI[of _ 0], rule exI[of _ 0]) simp

lemma representable_1 [simp]: "representable 1"
  unfolding representable_def by (rule exI[of _ 1], rule exI[of _ 0]) simp

lemma ratio_less:
  assumes "x \<noteq> 0"
  shows "\<bar>x / ulp x\<bar> < 2 ^ 53"
proof -
  have "\<bar>x\<bar> < 2 powi (binade x + 1)" by (rule abs_less_binade[OF assms])
  also have "\<dots> = 2 ^ 53 * ulp x"
    by (simp add: ulp_def power_int_add power_int_diff)
  finally have "\<bar>x\<bar> / ulp x < 2 ^ 53"
    by (simp add: pos_divide_less_eq)
  then show ?thesis by (simp add: abs_divide abs_of_pos)
qed

lemma representable_rnd: "representable (rnd x)"
proof (cases "x = 0")
  case True
  then show ?thesis by simp
next
  case False
  define j where "j = binade x - 52"
  define m where "m = round_even (x / ulp x)"
  have j: "- 1074 \<le> j" using binade_ge[of x] by (simp add: j_def)
  have r: "rnd x = of_int m * 2 powi j"
    using False by (simp add: rnd_def m_def j_def ulp_def)
  have "\<bar>real_of_int m - x / ulp x\<bar> \<le> 1 / 2"
    unfolding m_def by (rule round_even_err)
  with ratio_less[OF False] have "\<bar>real_of_int m\<bar> < 2 ^ 53 + 1"
    by linarith
  then have "real_of_int \<bar>m\<bar> < real_of_int (2 ^ 53 + 1)" by simp
  then have "\<bar>m\<bar> < 2 ^ 53 + 1" by (simp only: of_int_less_iff)
  then have m: "\<bar>m\<bar> \<le> 2 ^ 53" by simp
  show ?thesis
  proof (cases "\<bar>m\<bar> < 2 ^ 53")
    case True
    with j r show ?thesis unfolding representable_def by blast
  next
    case False
    with m have "\<bar>m\<bar> = 2 ^ 53" by simp
    then have "m = 2 ^ 53 \<or> m = - (2 ^ 53)" by linarith
    then have "rnd x = of_int (m div 2) * 2 powi (j + 1) \<and> \<bar>m div 2\<bar> < 2 ^ 53"
      unfolding r by (auto simp add: power_int_add)
    moreover have "- 1074 \<le> j + 1" using j by simp
    ultimately show ?thesis unfolding representable_def by blast
  qed
qed

lemma rnd_idem [simp]: "rnd (rnd x) = rnd x"
  by (rule representable_rnd_id[OF representable_rnd])

lemma rnd_err: "\<bar>rnd x - x\<bar> \<le> ulp x / 2"
proof (cases "x = 0")
  case True
  then show ?thesis using less_imp_le[OF ulp_pos[of 0]] by simp
next
  case False
  have "ulp x \<noteq> 0" by (simp add: ulp_def)
  then have "rnd x - x = (of_int (round_even (x / ulp x)) - x / ulp x) * ulp x"
    using False by (simp add: rnd_def left_diff_distrib)
  then have "\<bar>rnd x - x\<bar> = \<bar>of_int (round_even (x / ulp x)) - x / ulp x\<bar> * ulp x"
    by (simp add: abs_mult abs_of_pos)
  also have "\<dots> \<le> 1 / 2 * ulp x"
    by (rule mult_right_mono[OF round_even_err]) (simp add: ulp_def)
  finally show ?thesis by simp
qed

lemma ulp_le: "ulp x \<le> max (\<bar>x\<bar> / 2 ^ 52) (2 powi (- 1074))"
proof (cases "x = 0 \<or> \<lfloor>log 2 \<bar>x\<bar>\<rfloor> < - 1022")
  case True
  then have "binade x = - 1022" by (auto simp: binade_def)
  then show ?thesis by (simp add: ulp_def)
next
  case False
  then have x: "x \<noteq> 0" and b: "binade x = \<lfloor>log 2 \<bar>x\<bar>\<rfloor>" by (auto simp: binade_def)
  have "2 powi (binade x) \<le> \<bar>x\<bar>"
    using floor_log2_iff[OF x, of "binade x"] b by simp
  then have "ulp x \<le> \<bar>x\<bar> / 2 ^ 52"
    by (simp add: ulp_def power_int_diff divide_right_mono)
  then show ?thesis by simp
qed

subsection \<open>The composition on doubles\<close>

lemma multiply_rows64_list:
  "multiply_rows64
     [a0, a1, a2, a3, a4, a5, a6, a7, a8, a9, a10, a11, a12, a13, a14, a15]
     [v0, v1, v2, v3, v4, v5, v6, v7, v8, v9, v10, v11, v12, v13, v14, v15] =
   [fadd (fadd (fadd (fadd (Fin 0) (fmul a0 v0)) (fmul a4 v1)) (fmul a8 v2)) (fmul a12 v3),
    fadd (fadd (fadd (fadd (Fin 0) (fmul a1 v0)) (fmul a5 v1)) (fmul a9 v2)) (fmul a13 v3),
    fadd (fadd (fadd (fadd (Fin 0) (fmul a2 v0)) (fmul a6 v1)) (fmul a10 v2)) (fmul a14 v3),
    fadd (fadd (fadd (fadd (Fin 0) (fmul a3 v0)) (fmul a7 v1)) (fmul a11 v2)) (fmul a15 v3),
    fadd (fadd (fadd (fadd (Fin 0) (fmul a0 v4)) (fmul a4 v5)) (fmul a8 v6)) (fmul a12 v7),
    fadd (fadd (fadd (fadd (Fin 0) (fmul a1 v4)) (fmul a5 v5)) (fmul a9 v6)) (fmul a13 v7),
    fadd (fadd (fadd (fadd (Fin 0) (fmul a2 v4)) (fmul a6 v5)) (fmul a10 v6)) (fmul a14 v7),
    fadd (fadd (fadd (fadd (Fin 0) (fmul a3 v4)) (fmul a7 v5)) (fmul a11 v6)) (fmul a15 v7),
    fadd (fadd (fadd (fadd (Fin 0) (fmul a0 v8)) (fmul a4 v9)) (fmul a8 v10)) (fmul a12 v11),
    fadd (fadd (fadd (fadd (Fin 0) (fmul a1 v8)) (fmul a5 v9)) (fmul a9 v10)) (fmul a13 v11),
    fadd (fadd (fadd (fadd (Fin 0) (fmul a2 v8)) (fmul a6 v9)) (fmul a10 v10)) (fmul a14 v11),
    fadd (fadd (fadd (fadd (Fin 0) (fmul a3 v8)) (fmul a7 v9)) (fmul a11 v10)) (fmul a15 v11),
    fadd (fadd (fadd (fadd (Fin 0) (fmul a0 v12)) (fmul a4 v13)) (fmul a8 v14)) (fmul a12 v15),
    fadd (fadd (fadd (fadd (Fin 0) (fmul a1 v12)) (fmul a5 v13)) (fmul a9 v14)) (fmul a13 v15),
    fadd (fadd (fadd (fadd (Fin 0) (fmul a2 v12)) (fmul a6 v13)) (fmul a10 v14)) (fmul a14 v15),
    fadd (fadd (fadd (fadd (Fin 0) (fmul a3 v12)) (fmul a7 v13)) (fmul a11 v14)) (fmul a15 v15)]"
  by (simp add: multiply_rows64_def copy_row64_def write_row64_def sum_column64_def array_set_def upt4)

lemma rnd_err_rel: "\<bar>rnd x - x\<bar> \<le> \<bar>x\<bar> / 2 ^ 53 + 2 powi (- 1075)"
proof -
  have "ulp x / 2 \<le> max (\<bar>x\<bar> / 2 ^ 52) (2 powi (- 1074)) / 2"
    using ulp_le[of x] by simp
  also have "\<dots> \<le> (\<bar>x\<bar> / 2 ^ 52 + 2 powi (- 1074)) / 2"
    by (intro divide_right_mono) (auto simp: max_def)
  also have "\<dots> = \<bar>x\<bar> / 2 ^ 53 + 2 powi (- 1075)"
    by (simp add: add_divide_distrib)
  finally show ?thesis using rnd_err[of x] by linarith
qed

lemma rnd_abs_le: "\<bar>rnd x\<bar> \<le> 2 * \<bar>x\<bar> + 1"
proof -
  have "\<bar>x\<bar> / 2 ^ 53 \<le> \<bar>x\<bar>" by (simp add: field_simps)
  moreover have "(2::real) powi (- 1075) \<le> 1"
    by (simp add: power_int_minus field_simps)
  ultimately show ?thesis using rnd_err_rel[of x] by linarith
qed

lemma round_to_double_Fin:
  assumes "\<bar>x\<bar> \<le> 2 ^ 1020"
  shows "round_to_double x = Fin (rnd x)"
proof -
  have "\<bar>rnd x\<bar> \<le> 2 * 2 ^ 1020 + 1" using rnd_abs_le[of x] assms by linarith
  also have "\<dots> < (2::real) ^ 1024" by simp
  finally show ?thesis by (auto simp: round_to_double_def Let_def)
qed

lemma round_to_double_rep:
  assumes "representable x" and "\<bar>x\<bar> \<le> 2 ^ 1020"
  shows "round_to_double x = Fin x"
  using round_to_double_Fin[OF assms(2)] representable_rnd_id[OF assms(1)] by simp

lemma round_to_double_0 [simp]: "round_to_double 0 = Fin 0"
  by (simp add: round_to_double_rep)

lemma round_to_double_1 [simp]: "round_to_double 1 = Fin 1"
  by (simp add: round_to_double_rep)

subsection \<open>adjustTone on the identity\<close>

lemma rho_minus: "rho (- r) = - rho r"
proof -
  have "clamp (- r) (- 255) 255 = - clamp r (- 255) 255"
    by (simp add: clamp_def min_def max_def)
  then show ?thesis by (simp add: rho_def rnd_minus)
qed

lemma rho_rep: "representable (rho r)"
  by (simp add: rho_def representable_rnd)

lemma rho_abs: "\<bar>rho r\<bar> \<le> 3"
proof -
  have "\<bar>clamp r (- 255) 255 / 255\<bar> \<le> 1"
    by (simp add: clamp_def min_def max_def abs_if)
  then show ?thesis using rnd_abs_le[of "clamp r (- 255) 255 / 255"]
    by (simp add: rho_def)
qed

lemma channel64: "div255 (clamp64 (orZero64 (Some (Fin r))) (Fin (- 255)) (Fin 255)) = Fin (rho r)"
proof -
  have c: "clamp64 (Fin r) (Fin (- 255)) (Fin 255) = Fin (clamp r (- 255) 255)"
    by (simp add: clamp64_def Math_max_def Math_min_def clamp_def min_def max_def)
  have "\<bar>clamp r (- 255) 255 / 255\<bar> \<le> 1"
    by (simp add: clamp_def min_def max_def abs_if)
  then have "\<bar>clamp r (- 255) 255 / 255\<bar> \<le> 2 ^ 1020"
    by (rule order_trans) simp
  from round_to_double_Fin[OF this] show ?thesis
    by (simp add: orZero64_def c rho_def)
qed

lemma adjustTone64_Fin:
  "adjustTone64 (Some (Fin r)) (Some (Fin g)) (Some (Fin b)) f =
     (if rho r \<noteq> 0 \<or> rho g \<noteq> 0 \<or> rho b \<noteq> 0
      then multiplyMatrix64 (tone_matrix64 (Fin (rho r)) (Fin (rho g)) (Fin (rho b))) f
      else f)"
  by (simp add: adjustTone64_def channel64)

lemma small_fin:
  assumes "representable x" and "\<bar>x\<bar> \<le> 3"
  shows "round_to_double x = Fin x"
  by (rule round_to_double_rep[OF assms(1)]) (rule order_trans[OF assms(2)], simp)

lemma tone_on_identity:
  assumes "representable a" "\<bar>a\<bar> \<le> 3" "representable b" "\<bar>b\<bar> \<le> 3" "representable c" "\<bar>c\<bar> \<le> 3"
  shows "multiply_rows64 (tone_matrix64 (Fin a) (Fin b) (Fin c)) identity_matrix64
         = tone_matrix64 (Fin a) (Fin b) (Fin c)"
  unfolding tone_matrix64_def identity_matrix64_def multiply_rows64_list
  by (simp add: small_fin assms)

lemma tone_back_to_identity:
  assumes "representable a" "\<bar>a\<bar> \<le> 3" "representable b" "\<bar>b\<bar> \<le> 3" "representable c" "\<bar>c\<bar> \<le> 3"
  shows "multiply_rows64 (tone_matrix64 (Fin (- a)) (Fin (- b)) (Fin (- c)))
           (tone_matrix64 (Fin a) (Fin b) (Fin c))
         = identity_matrix64"
  unfolding tone_matrix64_def identity_matrix64_def multiply_rows64_list
  by (simp add: small_fin assms representable_minus)

lemma adjustTone64_inverse_identity:
  assumes "uniforms_matrix_value64 f = identity_matrix64"
  shows "adjustTone64 (Some (Fin (- r))) (Some (Fin (- g))) (Some (Fin (- b)))
           (adjustTone64 (Some (Fin r)) (Some (Fin g)) (Some (Fin b)) f) = f"
  using assms
  by (simp add: adjustTone64_Fin rho_minus multiplyMatrix64_def tone_on_identity
      tone_back_to_identity rho_rep rho_abs)

subsection \<open>Three calls on a fresh filter\<close>

lemma rho_0 [simp]: "rho 0 = 0"
  by (simp add: rho_def clamp_def)

lemma rho_51: "rho 51 = d02"
  unfolding rho_def clamp_def d02_def
  by (subst rnd_eval[where k = "- 3"]) (simp_all add: round_even_def)

lemma rho_102: "rho 102 = d04"
  unfolding rho_def clamp_def d04_def
  by (subst rnd_eval[where k = "- 2"]) (simp_all add: round_even_def)

lemma sample_sum: "rnd (d04 + d02) = d06up"
  unfolding d02_def d04_def d06up_def
  by (subst rnd_eval[where k = "- 1"]) (simp_all add: round_even_def)

lemma sample_difference: "rnd (d06up - d04) = d02up"
  unfolding d02up_def d04_def d06up_def
  by (subst rnd_eval[where k = "- 3"]) (simp_all add: round_even_def)

lemma sample_small: "\<bar>d02\<bar> \<le> 3" "\<bar>d04\<bar> \<le> 3" "\<bar>d06up\<bar> \<le> 3" "\<bar>d04 + d02\<bar> \<le> 2 ^ 1020" "\<bar>d06up - d04\<bar> \<le> 2 ^ 1020"
  by (simp_all add: d02_def d04_def d06up_def)

lemma sample_representable: "representable d02" "representable d04" "representable d06up"
  using rho_rep[of 51] rho_rep[of 102] representable_rnd[of "d04 + d02"]
  by (simp_all add: rho_51 rho_102 sample_sum)

lemma sample_rounds:
  "round_to_double d02 = Fin d02" "round_to_double d04 = Fin d04" "round_to_double d06up = Fin d06up"
  "round_to_double (- d04) = Fin (- d04)"
  "round_to_double (d04 + d02) = Fin d06up"
  "round_to_double (d06up - d04) = Fin d02up"
  using round_to_double_Fin[OF sample_small(4)] round_to_double_Fin[OF sample_small(5)]
  by (simp_all add: small_fin sample_representable sample_small sample_sum sample_difference representable_minus)

lemma tone_51_on_fresh:
  "adjustTone64 (Some (Fin 51)) (Some (Fin 0)) (Some (Fin 0)) ToneFilter64_initialize
   = sample_filter64"
proof -
  have "d02 \<noteq> 0" by (simp add: d02_def)
  then show ?thesis
    by (simp add: adjustTone64_Fin rho_51 multiplyMatrix64_def ToneFilter64_initialize_def
        sample_filter64_def tone_on_identity sample_representable sample_small)
qed

lemma tone_102_on_sample:
  "adjustTone64 (Some (Fin 102)) (Some (Fin 0)) (Some (Fin 0)) sample_filter64
   = ToneFilter64_initialize
       \<lparr>uniforms_matrix_value64 := tone_matrix64 (Fin d06up) (Fin 0) (Fin 0)\<rparr>"
proof -
  have "d04 \<noteq> 0" by (simp add: d04_def)
  then show ?thesis
    by (simp add: adjustTone64_Fin rho_102 multiplyMatrix64_def tone_matrix64_def
        sample_filter64_def multiply_rows64_list sample_rounds)
qed

lemma tone_minus_102_after:
  "adjustTone64 (Some (Fin (- 102))) (Some (Fin 0)) (Some (Fin 0))
     (ToneFilter64_initialize
        \<lparr>uniforms_matrix_value64 := tone_matrix64 (Fin d06up) (Fin 0) (Fin 0)\<rparr>)
   = ToneFilter64_initialize
       \<lparr>uniforms_matrix_value64 := tone_matrix64 (Fin d02up) (Fin 0) (Fin 0)\<rparr>"
proof -
  have "d04 \<noteq> 0" by (simp add: d04_def)
  then show ?thesis
    using rho_minus[of 102]
    by (simp add: adjustTone64_Fin rho_102 multiplyMatrix64_def tone_matrix64_def
        multiply_rows64_list sample_rounds)
qed

lemma sample_there_and_back:
  "tone_there_and_back 102 0 0 sample_filter64
   = ToneFilter64_initialize
       \<lparr>uniforms_matrix_value64 := tone_matrix64 (Fin d02up) (Fin 0) (Fin 0)\<rparr>"
  using tone_102_on_sample tone_minus_102_after by (simp add: tone_there_and_back_def)

subsection \<open>adjustTone and its opposite on any stored matrix\<close>

lemma rnd_abs_pow: 
  assumes "x \<noteq> 0"
  shows "\<bar>rnd x\<bar> \<le> 2 powi (binade x + 1)"
proof -
  define m where "m = round_even (x / ulp x)"
  have "\<bar>real_of_int m - x / ulp x\<bar> \<le> 1 / 2"
    unfolding m_def by (rule round_even_err)
  with ratio_less[OF assms] have "\<bar>real_of_int m\<bar> < 2 ^ 53 + 1"
    by linarith
  then have "real_of_int \<bar>m\<bar> < real_of_int (2 ^ 53 + 1)" by simp
  then have "\<bar>m\<bar> < 2 ^ 53 + 1" by (simp only: of_int_less_iff)
  then have "\<bar>m\<bar> \<le> 2 ^ 53" by simp
  then have "real_of_int \<bar>m\<bar> \<le> real_of_int (2 ^ 53)" by (simp only: of_int_le_iff)
  then have m: "\<bar>real_of_int m\<bar> \<le> 2 ^ 53" by simp
  have "\<bar>rnd x\<bar> = \<bar>real_of_int m\<bar> * ulp x"
    using assms by (simp add: rnd_def m_def abs_mult abs_of_pos)
  also have "\<dots> \<le> 2 ^ 53 * ulp x"
    by (rule mult_right_mono[OF m]) (simp add: ulp_def)
  also have "\<dots> = 2 powi (binade x + 1)"
    by (simp add: ulp_def power_int_add power_int_diff)
  finally show ?thesis .
qed

lemma rnd_le_1:
  assumes "\<bar>x\<bar> \<le> 1"
  shows "\<bar>rnd x\<bar> \<le> 1"
proof -
  consider "x = 0" | "x = 1" | "x = - 1" | "x \<noteq> 0" "\<bar>x\<bar> < 1"
    using assms by fastforce
  then show ?thesis
  proof cases
    case 1
    then show ?thesis by simp
  next
    case 2
    then show ?thesis using representable_rnd_id[OF representable_1] by simp
  next
    case 3
    then show ?thesis
      using representable_rnd_id[OF representable_minus[OF representable_1]] by simp
  next
    case 4
    from 4(2) have "\<bar>x\<bar> < 2 powi (- 1 + 1)" by simp
    from binade_le[OF 4(1) this] have "binade x + 1 \<le> 0" by simp
    then have "(2::real) powi (binade x + 1) \<le> 2 powi 0"
      by (intro power_int_increasing) simp_all
    with rnd_abs_pow[OF 4(1)] show ?thesis by simp
  qed
qed

lemma tone_sum_minus: "tone_sum (- a) (- b) (- c) v0 v1 v2 = - tone_sum a b c v0 v1 v2"
proof -
  have 1: "rnd (- a * v0) = - rnd (a * v0)" "rnd (- b * v1) = - rnd (b * v1)"
    "rnd (- c * v2) = - rnd (c * v2)"
    using rnd_minus[of "a * v0"] rnd_minus[of "b * v1"] rnd_minus[of "c * v2"] by simp_all
  have 2: "rnd (- rnd (a * v0) + - rnd (b * v1)) = - rnd (rnd (a * v0) + rnd (b * v1))"
    using rnd_minus[of "rnd (a * v0) + rnd (b * v1)"] by simp
  have 3: "rnd (- rnd (rnd (a * v0) + rnd (b * v1)) + - rnd (c * v2))
           = - rnd (rnd (rnd (a * v0) + rnd (b * v1)) + rnd (c * v2))"
    using rnd_minus[of "rnd (rnd (a * v0) + rnd (b * v1)) + rnd (c * v2)"] by simp
  show ?thesis unfolding tone_sum_def 1 2 3 ..
qed

lemma prod_bound:
  fixes a v M :: real
  assumes "\<bar>a\<bar> \<le> 1" and "\<bar>v\<bar> \<le> M"
  shows "\<bar>a * v\<bar> \<le> M"
proof -
  have "\<bar>a * v\<bar> = \<bar>a\<bar> * \<bar>v\<bar>" by (rule abs_mult)
  also have "\<dots> \<le> 1 * M" using assms by (intro mult_mono) auto
  finally show ?thesis by simp
qed

lemma rnd_abs_le_bound: "\<bar>x\<bar> \<le> B \<Longrightarrow> \<bar>rnd x\<bar> \<le> 2 * B + 1"
  using rnd_abs_le[of x] by simp

lemma abs_add_bound:
  fixes x y :: real
  shows "\<bar>x\<bar> \<le> A \<Longrightarrow> \<bar>y\<bar> \<le> B \<Longrightarrow> \<bar>x + y\<bar> \<le> A + B"
  by simp

lemma tone_magnitudes:
  fixes M :: real
  assumes "\<bar>a\<bar> \<le> 1" "\<bar>b\<bar> \<le> 1" "\<bar>c\<bar> \<le> 1"
      and "\<bar>v0\<bar> \<le> M" "\<bar>v1\<bar> \<le> M" "\<bar>v2\<bar> \<le> M" "\<bar>v3\<bar> \<le> M"
  shows "\<bar>a * v0\<bar> \<le> M" "\<bar>b * v1\<bar> \<le> M" "\<bar>c * v2\<bar> \<le> M"
    and "\<bar>rnd (a * v0) + rnd (b * v1)\<bar> \<le> 4 * M + 2"
    and "\<bar>rnd (rnd (a * v0) + rnd (b * v1)) + rnd (c * v2)\<bar> \<le> 10 * M + 6"
    and "\<bar>tone_sum a b c v0 v1 v2\<bar> \<le> 20 * M + 13"
    and "\<bar>tone_sum a b c v0 v1 v2 + v3\<bar> \<le> 21 * M + 13"
    and "\<bar>tone_col a b c v0 v1 v2 v3\<bar> \<le> 42 * M + 27"
proof -
  show p0: "\<bar>a * v0\<bar> \<le> M" and p1: "\<bar>b * v1\<bar> \<le> M" and p2: "\<bar>c * v2\<bar> \<le> M"
    using assms by (simp_all add: prod_bound)
  note r0 = rnd_abs_le_bound[OF p0] and r1 = rnd_abs_le_bound[OF p1]
    and r2 = rnd_abs_le_bound[OF p2]
  from abs_add_bound[OF r0 r1]
  show s1: "\<bar>rnd (a * v0) + rnd (b * v1)\<bar> \<le> 4 * M + 2" by simp
  from abs_add_bound[OF rnd_abs_le_bound[OF s1] r2]
  show s3: "\<bar>rnd (rnd (a * v0) + rnd (b * v1)) + rnd (c * v2)\<bar> \<le> 10 * M + 6" by simp
  from rnd_abs_le_bound[OF s3]
  show s4: "\<bar>tone_sum a b c v0 v1 v2\<bar> \<le> 20 * M + 13" by (simp add: tone_sum_def)
  from abs_add_bound[OF s4 assms(7)]
  show s5: "\<bar>tone_sum a b c v0 v1 v2 + v3\<bar> \<le> 21 * M + 13" by simp
  from rnd_abs_le_bound[OF s5]
  show "\<bar>tone_col a b c v0 v1 v2 v3\<bar> \<le> 42 * M + 27" by (simp add: tone_col_def)
qed

lemma below_overflow: "M \<le> 2 ^ 1008 \<Longrightarrow> x \<le> 42 * M + 27 \<Longrightarrow> x \<le> (2::real) ^ 1020"
  by (rule order_trans[of _ "42 * 2 ^ 1008 + 27"]) simp_all

lemma tone_fourth_entry:
  assumes "\<bar>a\<bar> \<le> 1" "\<bar>b\<bar> \<le> 1" "\<bar>c\<bar> \<le> 1"
      and "\<bar>v0\<bar> \<le> 2 ^ 1008" "\<bar>v1\<bar> \<le> 2 ^ 1008" "\<bar>v2\<bar> \<le> 2 ^ 1008" "\<bar>v3\<bar> \<le> 2 ^ 1008"
      and "representable v3"
  shows "fadd (fadd (fadd (fadd (Fin 0) (fmul (Fin a) (Fin v0))) (fmul (Fin b) (Fin v1)))
                (fmul (Fin c) (Fin v2))) (fmul (Fin 1) (Fin v3))
         = Fin (tone_col a b c v0 v1 v2 v3)"
proof -
  note m = tone_magnitudes[OF assms(1-7)]
  have M: "(2::real) ^ 1008 \<le> 2 ^ 1008" by simp
  have le: "x \<le> 2 ^ 1008 \<Longrightarrow> x \<le> (2::real) ^ 1020" for x
    by (rule order_trans[of _ "2 ^ 1008"]) simp_all
  have p0: "fmul (Fin a) (Fin v0) = Fin (rnd (a * v0))"
    using round_to_double_Fin[OF le[OF m(1)]] by simp
  have p1: "fmul (Fin b) (Fin v1) = Fin (rnd (b * v1))"
    using round_to_double_Fin[OF le[OF m(2)]] by simp
  have p2: "fmul (Fin c) (Fin v2) = Fin (rnd (c * v2))"
    using round_to_double_Fin[OF le[OF m(3)]] by simp
  have p3: "fmul (Fin 1) (Fin v3) = Fin v3"
    using round_to_double_rep[OF assms(8) le[OF assms(7)]] by simp
  have s0: "fadd (Fin 0) (Fin (rnd (a * v0))) = Fin (rnd (a * v0))"
    using round_to_double_Fin[OF le[OF m(1)]] by (simp add: round_to_double_def)
  have b1: "\<bar>rnd (a * v0) + rnd (b * v1)\<bar> \<le> 2 ^ 1020"
    using m(4) by (intro below_overflow[OF M]) linarith
  have s1: "fadd (Fin (rnd (a * v0))) (Fin (rnd (b * v1))) = Fin (rnd (rnd (a * v0) + rnd (b * v1)))"
    using round_to_double_Fin[OF b1] by simp
  have b2: "\<bar>rnd (rnd (a * v0) + rnd (b * v1)) + rnd (c * v2)\<bar> \<le> 2 ^ 1020"
    using m(5) by (intro below_overflow[OF M]) linarith
  have s2: "fadd (Fin (rnd (rnd (a * v0) + rnd (b * v1)))) (Fin (rnd (c * v2)))
            = Fin (tone_sum a b c v0 v1 v2)"
    using round_to_double_Fin[OF b2] by (simp add: tone_sum_def)
  have b3: "\<bar>tone_sum a b c v0 v1 v2 + v3\<bar> \<le> 2 ^ 1020"
    using m(7) by (intro below_overflow[OF M]) linarith
  have s3: "fadd (Fin (tone_sum a b c v0 v1 v2)) (Fin v3) = Fin (tone_col a b c v0 v1 v2 v3)"
    using round_to_double_Fin[OF b3] by (simp add: tone_col_def)
  show ?thesis unfolding p0 p1 p2 p3 s0 s1 s2 s3 ..
qed

lemma rnd_rel_bound:
  assumes "\<bar>x\<bar> \<le> B"
  shows "\<bar>rnd x - x\<bar> \<le> B / 2 ^ 53 + 2 powi (- 1075)"
proof -
  have "\<bar>x\<bar> / 2 ^ 53 \<le> B / 2 ^ 53" using assms by (simp add: divide_right_mono)
  with rnd_err_rel[of x] show ?thesis by linarith
qed

lemma rnd_mag_bound:
  assumes "\<bar>x\<bar> \<le> B"
  shows "\<bar>rnd x\<bar> \<le> 2 * B + 2 powi (- 1075)"
proof -
  have "0 \<le> B" using assms by linarith
  then have "B / 2 ^ 53 \<le> B" by (simp add: field_simps)
  moreover have "\<bar>rnd x\<bar> \<le> \<bar>rnd x - x\<bar> + \<bar>x\<bar>" by simp
  ultimately show ?thesis using rnd_rel_bound[OF assms] assms by linarith
qed

lemma allowance_arith:
  fixes A0 A1 A2 A3 t D1 D2 :: real
  assumes "0 \<le> A0" "0 \<le> A1" "0 \<le> A2" "0 \<le> A3" "0 \<le> t"
      and "D1 \<le> (8 * A0 + 8 * A1 + 4 * A2 + 13 * t + A3) / 2 ^ 53 + t"
      and "D2 \<le> (A3 + D1) / 2 ^ 53 + t"
  shows "D1 + D2 \<le> (A0 + A1 + A2 + A3) / 2 ^ 49 + 32 * t"
  using assms by (simp add: field_simps)

lemma round_trip_err:
  assumes "\<bar>a\<bar> \<le> 1" "\<bar>b\<bar> \<le> 1" "\<bar>c\<bar> \<le> 1"
  shows "\<bar>tone_col (- a) (- b) (- c) v0 v1 v2 (tone_col a b c v0 v1 v2 v3) - v3\<bar>
         \<le> (\<bar>v0\<bar> + \<bar>v1\<bar> + \<bar>v2\<bar> + \<bar>v3\<bar>) / 2 ^ 49 + 2 powi (- 1070)"
proof -
  define t :: real where "t = 2 powi (- 1075)"
  define s where "s = tone_sum a b c v0 v1 v2"
  define w where "w = rnd (s + v3)"
  have t0: "0 \<le> t" by (simp add: t_def)
  have t32: "32 * t = 2 powi (- 1070)"
    unfolding t_def using power_int_add[of "2::real" 5 "- 1075"] by simp
  have p0: "\<bar>a * v0\<bar> \<le> \<bar>v0\<bar>" and p1: "\<bar>b * v1\<bar> \<le> \<bar>v1\<bar>" and p2: "\<bar>c * v2\<bar> \<le> \<bar>v2\<bar>"
    using assms by (simp_all add: prod_bound)
  note r0 = rnd_mag_bound[OF p0, folded t_def] and r1 = rnd_mag_bound[OF p1, folded t_def]
    and r2 = rnd_mag_bound[OF p2, folded t_def]
  have s1: "\<bar>rnd (a * v0) + rnd (b * v1)\<bar> \<le> 2 * \<bar>v0\<bar> + 2 * \<bar>v1\<bar> + 2 * t"
    using abs_add_bound[OF r0 r1] by simp
  have s2: "\<bar>rnd (rnd (a * v0) + rnd (b * v1)) + rnd (c * v2)\<bar>
            \<le> 4 * \<bar>v0\<bar> + 4 * \<bar>v1\<bar> + 2 * \<bar>v2\<bar> + 6 * t"
    using abs_add_bound[OF rnd_mag_bound[OF s1, folded t_def] r2] by simp
  have s3: "\<bar>s\<bar> \<le> 8 * \<bar>v0\<bar> + 8 * \<bar>v1\<bar> + 4 * \<bar>v2\<bar> + 13 * t"
    using rnd_mag_bound[OF s2, folded t_def] by (simp add: s_def tone_sum_def)
  have s4: "\<bar>s + v3\<bar> \<le> 8 * \<bar>v0\<bar> + 8 * \<bar>v1\<bar> + 4 * \<bar>v2\<bar> + 13 * t + \<bar>v3\<bar>"
    using abs_add_bound[OF s3, of v3 "\<bar>v3\<bar>"] by simp
  have d1: "\<bar>w - (s + v3)\<bar> \<le> (8 * \<bar>v0\<bar> + 8 * \<bar>v1\<bar> + 4 * \<bar>v2\<bar> + 13 * t + \<bar>v3\<bar>) / 2 ^ 53 + t"
    using rnd_rel_bound[OF s4, folded t_def] by (simp add: w_def)
  have "\<bar>- s + w\<bar> = \<bar>v3 + (w - (s + v3))\<bar>" by simp
  also have "\<dots> \<le> \<bar>v3\<bar> + \<bar>w - (s + v3)\<bar>" by (rule abs_triangle_ineq)
  finally have s5: "\<bar>- s + w\<bar> \<le> \<bar>v3\<bar> + \<bar>w - (s + v3)\<bar>" .
  have d2: "\<bar>rnd (- s + w) - (- s + w)\<bar> \<le> (\<bar>v3\<bar> + \<bar>w - (s + v3)\<bar>) / 2 ^ 53 + t"
    using rnd_rel_bound[OF s5, folded t_def] .
  have "tone_col (- a) (- b) (- c) v0 v1 v2 (tone_col a b c v0 v1 v2 v3) = rnd (- s + w)"
    by (simp add: tone_col_def tone_sum_minus s_def w_def)
  then have "\<bar>tone_col (- a) (- b) (- c) v0 v1 v2 (tone_col a b c v0 v1 v2 v3) - v3\<bar>
        = \<bar>(w - (s + v3)) + (rnd (- s + w) - (- s + w))\<bar>" by simp
  also have "\<dots> \<le> \<bar>w - (s + v3)\<bar> + \<bar>rnd (- s + w) - (- s + w)\<bar>"
    by (rule abs_triangle_ineq)
  also have "\<dots> \<le> (\<bar>v0\<bar> + \<bar>v1\<bar> + \<bar>v2\<bar> + \<bar>v3\<bar>) / 2 ^ 49 + 32 * t"
    by (rule allowance_arith[OF _ _ _ _ t0 d1 d2]) simp_all
  finally show ?thesis unfolding t32 .
qed

lemma unit_entries:
  assumes "representable v0" "\<bar>v0\<bar> \<le> 2 ^ 1008" "representable v1" "\<bar>v1\<bar> \<le> 2 ^ 1008"
      and "representable v2" "\<bar>v2\<bar> \<le> 2 ^ 1008"
  shows "fadd (fadd (fadd (fadd (Fin 0) (fmul (Fin 1) (Fin v0))) (fmul (Fin 0) (Fin v1)))
                (fmul (Fin 0) (Fin v2))) (fmul (Fin 0) (Fin v3)) = Fin v0"
    and "fadd (fadd (fadd (fadd (Fin 0) (fmul (Fin 0) (Fin v0))) (fmul (Fin 1) (Fin v1)))
                (fmul (Fin 0) (Fin v2))) (fmul (Fin 0) (Fin v3)) = Fin v1"
    and "fadd (fadd (fadd (fadd (Fin 0) (fmul (Fin 0) (Fin v0))) (fmul (Fin 0) (Fin v1)))
                (fmul (Fin 1) (Fin v2))) (fmul (Fin 0) (Fin v3)) = Fin v2"
proof -
  have le: "x \<le> 2 ^ 1008 \<Longrightarrow> x \<le> (2::real) ^ 1020" for x
    by (rule order_trans[of _ "2 ^ 1008"]) simp_all
  note f = round_to_double_rep[OF assms(1) le[OF assms(2)]]
    round_to_double_rep[OF assms(3) le[OF assms(4)]]
    round_to_double_rep[OF assms(5) le[OF assms(6)]]
  show "fadd (fadd (fadd (fadd (Fin 0) (fmul (Fin 1) (Fin v0))) (fmul (Fin 0) (Fin v1)))
                (fmul (Fin 0) (Fin v2))) (fmul (Fin 0) (Fin v3)) = Fin v0"
    and "fadd (fadd (fadd (fadd (Fin 0) (fmul (Fin 0) (Fin v0))) (fmul (Fin 1) (Fin v1)))
                (fmul (Fin 0) (Fin v2))) (fmul (Fin 0) (Fin v3)) = Fin v1"
    and "fadd (fadd (fadd (fadd (Fin 0) (fmul (Fin 0) (Fin v0))) (fmul (Fin 0) (Fin v1)))
                (fmul (Fin 1) (Fin v2))) (fmul (Fin 0) (Fin v3)) = Fin v2"
    by (simp_all add: f)
qed

lemma tone_row:
  assumes "\<bar>a\<bar> \<le> 1" "\<bar>b\<bar> \<le> 1" "\<bar>c\<bar> \<le> 1"
      and "representable v0 \<and> \<bar>v0\<bar> \<le> 2 ^ 1008" "representable v1 \<and> \<bar>v1\<bar> \<le> 2 ^ 1008"
      and "representable v2 \<and> \<bar>v2\<bar> \<le> 2 ^ 1008" "representable v3 \<and> \<bar>v3\<bar> \<le> 2 ^ 1008"
  shows "fadd (fadd (fadd (fadd (Fin 0) (fmul (Fin 1) (Fin v0))) (fmul (Fin 0) (Fin v1)))
                (fmul (Fin 0) (Fin v2))) (fmul (Fin 0) (Fin v3)) = Fin v0"
    and "fadd (fadd (fadd (fadd (Fin 0) (fmul (Fin 0) (Fin v0))) (fmul (Fin 1) (Fin v1)))
                (fmul (Fin 0) (Fin v2))) (fmul (Fin 0) (Fin v3)) = Fin v1"
    and "fadd (fadd (fadd (fadd (Fin 0) (fmul (Fin 0) (Fin v0))) (fmul (Fin 0) (Fin v1)))
                (fmul (Fin 1) (Fin v2))) (fmul (Fin 0) (Fin v3)) = Fin v2"
    and "fadd (fadd (fadd (fadd (Fin 0) (fmul (Fin a) (Fin v0))) (fmul (Fin b) (Fin v1)))
                (fmul (Fin c) (Fin v2))) (fmul (Fin 1) (Fin v3))
         = Fin (tone_col a b c v0 v1 v2 v3)"
  using assms unit_entries[of v0 v1 v2 v3] tone_fourth_entry[of a b c v0 v1 v2 v3]
  by blast+

lemma tone_step_correct:
  assumes "\<bar>a\<bar> \<le> 1" "\<bar>b\<bar> \<le> 1" "\<bar>c\<bar> \<le> 1"
      and "length vs = 16"
      and "\<forall>v \<in> set vs. representable v \<and> \<bar>v\<bar> \<le> 2 ^ 1008"
  shows "multiply_rows64 (tone_matrix64 (Fin a) (Fin b) (Fin c)) (map Fin vs)
         = map Fin (tone_step a b c vs)"
proof -
  from list16[OF assms(4)] obtain v0 v1 v2 v3 v4 v5 v6 v7 v8 v9 v10 v11 v12 v13 v14 v15 where
    vs: "vs = [v0, v1, v2, v3, v4, v5, v6, v7, v8, v9, v10, v11, v12, v13, v14, v15]" by blast
  from assms(5) have
    h: "representable v0 \<and> \<bar>v0\<bar> \<le> 2 ^ 1008" "representable v1 \<and> \<bar>v1\<bar> \<le> 2 ^ 1008"
       "representable v2 \<and> \<bar>v2\<bar> \<le> 2 ^ 1008" "representable v3 \<and> \<bar>v3\<bar> \<le> 2 ^ 1008"
       "representable v4 \<and> \<bar>v4\<bar> \<le> 2 ^ 1008" "representable v5 \<and> \<bar>v5\<bar> \<le> 2 ^ 1008"
       "representable v6 \<and> \<bar>v6\<bar> \<le> 2 ^ 1008" "representable v7 \<and> \<bar>v7\<bar> \<le> 2 ^ 1008"
       "representable v8 \<and> \<bar>v8\<bar> \<le> 2 ^ 1008" "representable v9 \<and> \<bar>v9\<bar> \<le> 2 ^ 1008"
       "representable v10 \<and> \<bar>v10\<bar> \<le> 2 ^ 1008" "representable v11 \<and> \<bar>v11\<bar> \<le> 2 ^ 1008"
       "representable v12 \<and> \<bar>v12\<bar> \<le> 2 ^ 1008" "representable v13 \<and> \<bar>v13\<bar> \<le> 2 ^ 1008"
       "representable v14 \<and> \<bar>v14\<bar> \<le> 2 ^ 1008" "representable v15 \<and> \<bar>v15\<bar> \<le> 2 ^ 1008"
    unfolding vs by simp_all
  note rows = tone_row[OF assms(1-3) h(1-4)] tone_row[OF assms(1-3) h(5-8)]
    tone_row[OF assms(1-3) h(9-12)] tone_row[OF assms(1-3) h(13-16)]
  show ?thesis
    unfolding vs tone_matrix64_def tone_step_def list.map multiply_rows64_list rows
    by simp
qed

lemma tone_step_props:
  assumes "\<bar>a\<bar> \<le> 1" "\<bar>b\<bar> \<le> 1" "\<bar>c\<bar> \<le> 1"
      and "length vs = 16"
      and "\<forall>v \<in> set vs. representable v \<and> \<bar>v\<bar> \<le> 2 ^ 1000"
  shows "length (tone_step a b c vs) = 16"
    and "\<forall>v \<in> set (tone_step a b c vs). representable v \<and> \<bar>v\<bar> \<le> 2 ^ 1008"
proof -
  show "length (tone_step a b c vs) = 16" by (simp add: tone_step_def)
  have mem: "vs ! k \<in> set vs" if "k < 16" for k
    using that assms(4) by simp
  have rp: "representable (vs ! k)" if "k < 16" for k
    using assms(5) mem[OF that] by blast
  have lo: "\<bar>vs ! k\<bar> \<le> 2 ^ 1000" if "k < 16" for k
    using assms(5) mem[OF that] by blast
  have up: "\<bar>vs ! k\<bar> \<le> 2 ^ 1008" if "k < 16" for k
    by (rule order_trans[OF lo[OF that]]) simp
  have col: "\<bar>tone_col a b c (vs ! i) (vs ! j) (vs ! k) (vs ! l)\<bar> \<le> 2 ^ 1008"
    if "i < 16" "j < 16" "k < 16" "l < 16" for i j k l
    by (rule order_trans[OF tone_magnitudes(8)[OF assms(1-3) lo[OF that(1)] lo[OF that(2)]
          lo[OF that(3)] lo[OF that(4)]]]) simp
  have rep: "representable (tone_col a b c x y z u)" for x y z u
    by (simp add: tone_col_def representable_rnd)
  define P where "P v \<longleftrightarrow> representable v \<and> \<bar>v\<bar> \<le> 2 ^ 1008" for v :: real
  have Pn: "P (vs ! k)" if "k < 16" for k
    unfolding P_def using rp[OF that] up[OF that] by blast
  have Pc: "P (tone_col a b c (vs ! i) (vs ! j) (vs ! k) (vs ! l))"
    if "i < 16" "j < 16" "k < 16" "l < 16" for i j k l
    unfolding P_def using rep col[OF that] by blast
  have "\<forall>v \<in> set (tone_step a b c vs). P v"
    unfolding tone_step_def by (simp add: Pn Pc)
  then show "\<forall>v \<in> set (tone_step a b c vs). representable v \<and> \<bar>v\<bar> \<le> 2 ^ 1008"
    unfolding P_def .
qed

lemma real_of_Fin [simp]: "real_of (Fin v) = v"
  by (simp add: real_of_def)

lemma finite_double_Fin [simp]: "finite_double (Fin v) = representable v"
  by (simp add: finite_double_def)

lemma rounding_allowance_nonneg: "0 \<le> rounding_allowance v0 v1 v2 v3"
  by (simp add: rounding_allowance_def)

lemma round_trip_allowance:
  assumes "\<bar>a\<bar> \<le> 1" "\<bar>b\<bar> \<le> 1" "\<bar>c\<bar> \<le> 1"
  shows "\<bar>tone_col (- a) (- b) (- c) v0 v1 v2 (tone_col a b c v0 v1 v2 v3) - v3\<bar>
         \<le> rounding_allowance v0 v1 v2 v3"
  unfolding rounding_allowance_def by (rule round_trip_err[OF assms])

lemma rho_le_1: "\<bar>rho r\<bar> \<le> 1"
proof -
  have "\<bar>clamp r (- 255) 255 / 255\<bar> \<le> 1"
    by (simp add: clamp_def min_def max_def abs_if)
  then show ?thesis unfolding rho_def by (rule rnd_le_1)
qed

lemma finite_double_cases:
  assumes "finite_double d"
  shows "Fin (real_of d) = d" and "representable (real_of d)"
  using assms by (cases d; simp add: finite_double_def real_of_def)+

lemma finite_doubles_map:
  assumes "list_all (\<lambda>d. finite_double d \<and> \<bar>real_of d\<bar> \<le> B) m"
  shows "m = map Fin (map real_of m)"
    and "\<forall>v \<in> set (map real_of m). representable v \<and> \<bar>v\<bar> \<le> B"
proof -
  have each: "finite_double d \<and> \<bar>real_of d\<bar> \<le> B" if "d \<in> set m" for d
    using assms that unfolding list_all_iff by blast
  have "map (\<lambda>d. Fin (real_of d)) m = m"
    by (rule map_idI) (use each finite_double_cases(1) in blast)
  then show "m = map Fin (map real_of m)"
    by (simp add: comp_def)
  show "\<forall>v \<in> set (map real_of m). representable v \<and> \<bar>v\<bar> \<le> B"
  proof
    fix v assume "v \<in> set (map real_of m)"
    then obtain d where "d \<in> set m" and "v = real_of d" by auto
    with each[of d] finite_double_cases(2)[of d] show "representable v \<and> \<bar>v\<bar> \<le> B"
      by blast
  qed
qed

lemma row_restored_tone:
  assumes "\<bar>a\<bar> \<le> 1" "\<bar>b\<bar> \<le> 1" "\<bar>c\<bar> \<le> 1" and "length vs = 16"
  shows "row_restored (map Fin vs) (map Fin (tone_step (- a) (- b) (- c) (tone_step a b c vs))) 0"
    and "row_restored (map Fin vs) (map Fin (tone_step (- a) (- b) (- c) (tone_step a b c vs))) 1"
    and "row_restored (map Fin vs) (map Fin (tone_step (- a) (- b) (- c) (tone_step a b c vs))) 2"
    and "row_restored (map Fin vs) (map Fin (tone_step (- a) (- b) (- c) (tone_step a b c vs))) 3"
proof -
  from list16[OF assms(4)] obtain v0 v1 v2 v3 v4 v5 v6 v7 v8 v9 v10 v11 v12 v13 v14 v15 where
    vs: "vs = [v0, v1, v2, v3, v4, v5, v6, v7, v8, v9, v10, v11, v12, v13, v14, v15]" by blast
  have rep: "representable (tone_col x y z u0 u1 u2 u3)" for x y z u0 u1 u2 u3
    by (simp add: tone_col_def representable_rnd)
  note e = round_trip_allowance[OF assms(1-3)]
  show "row_restored (map Fin vs) (map Fin (tone_step (- a) (- b) (- c) (tone_step a b c vs))) 0"
    and "row_restored (map Fin vs) (map Fin (tone_step (- a) (- b) (- c) (tone_step a b c vs))) 1"
    and "row_restored (map Fin vs) (map Fin (tone_step (- a) (- b) (- c) (tone_step a b c vs))) 2"
    and "row_restored (map Fin vs) (map Fin (tone_step (- a) (- b) (- c) (tone_step a b c vs))) 3"
    unfolding vs row_restored_def tone_step_def
    by (simp_all add: rep e)
qed

lemma row_restored_refl:
  assumes "length m = 16" and "list_all (\<lambda>d. finite_double d \<and> \<bar>real_of d\<bar> \<le> B) m" and "i < 4"
  shows "row_restored m m i"
proof -
  have "4 * i + 3 < length m" using assms(1,3) by simp
  with assms(2) have "finite_double (m ! (4 * i + 3))"
    by (simp add: list_all_length)
  then show ?thesis
    by (simp add: row_restored_def rounding_allowance_nonneg)
qed

lemma adjustTone64_inverse_general:
  assumes "length (uniforms_matrix_value64 f) = 16"
      and "list_all (\<lambda>d. finite_double d \<and> \<bar>real_of d\<bar> \<le> 2 ^ 1000) (uniforms_matrix_value64 f)"
  shows "length (uniforms_matrix_value64 (adjustTone64 (Some (Fin (- r))) (Some (Fin (- g))) (Some (Fin (- b)))
           (adjustTone64 (Some (Fin r)) (Some (Fin g)) (Some (Fin b)) f))) = 16
       \<and> row_restored (uniforms_matrix_value64 f)
           (uniforms_matrix_value64 (adjustTone64 (Some (Fin (- r))) (Some (Fin (- g))) (Some (Fin (- b)))
              (adjustTone64 (Some (Fin r)) (Some (Fin g)) (Some (Fin b)) f))) 0
       \<and> row_restored (uniforms_matrix_value64 f)
           (uniforms_matrix_value64 (adjustTone64 (Some (Fin (- r))) (Some (Fin (- g))) (Some (Fin (- b)))
              (adjustTone64 (Some (Fin r)) (Some (Fin g)) (Some (Fin b)) f))) 1
       \<and> row_restored (uniforms_matrix_value64 f)
           (uniforms_matrix_value64 (adjustTone64 (Some (Fin (- r))) (Some (Fin (- g))) (Some (Fin (- b)))
              (adjustTone64 (Some (Fin r)) (Some (Fin g)) (Some (Fin b)) f))) 2
       \<and> row_restored (uniforms_matrix_value64 f)
           (uniforms_matrix_value64 (adjustTone64 (Some (Fin (- r))) (Some (Fin (- g))) (Some (Fin (- b)))
              (adjustTone64 (Some (Fin r)) (Some (Fin g)) (Some (Fin b)) f))) 3
       \<and> fragmentSrc64 (adjustTone64 (Some (Fin (- r))) (Some (Fin (- g))) (Some (Fin (- b)))
           (adjustTone64 (Some (Fin r)) (Some (Fin g)) (Some (Fin b)) f)) = fragmentSrc64 f"
proof (cases "rho r \<noteq> 0 \<or> rho g \<noteq> 0 \<or> rho b \<noteq> 0")
  case False
  then have "adjustTone64 (Some (Fin (- r))) (Some (Fin (- g))) (Some (Fin (- b)))
           (adjustTone64 (Some (Fin r)) (Some (Fin g)) (Some (Fin b)) f) = f"
    by (simp add: adjustTone64_Fin rho_minus)
  then show ?thesis
    using assms(1) row_restored_refl[OF assms] by simp
next
  case True
  define vs where "vs = map real_of (uniforms_matrix_value64 f)"
  have m: "uniforms_matrix_value64 f = map Fin vs"
    and ok: "\<forall>v \<in> set vs. representable v \<and> \<bar>v\<bar> \<le> 2 ^ 1000"
    using finite_doubles_map[OF assms(2)] by (simp_all add: vs_def)
  have len: "length vs = 16" using assms(1) by (simp add: vs_def)
  have ok': "\<forall>v \<in> set vs. representable v \<and> \<bar>v\<bar> \<le> 2 ^ 1008"
  proof
    fix v assume "v \<in> set vs"
    with ok have "representable v" and "\<bar>v\<bar> \<le> 2 ^ 1000" by blast+
    moreover from this(2) have "\<bar>v\<bar> \<le> 2 ^ 1008" by (rule order_trans) simp
    ultimately show "representable v \<and> \<bar>v\<bar> \<le> 2 ^ 1008" by blast
  qed
  note a = rho_le_1[of r] rho_le_1[of g] rho_le_1[of b]
  have na: "\<bar>- rho r\<bar> \<le> 1" "\<bar>- rho g\<bar> \<le> 1" "\<bar>- rho b\<bar> \<le> 1" using a by simp_all
  have 1: "adjustTone64 (Some (Fin r)) (Some (Fin g)) (Some (Fin b)) f
           = f\<lparr>uniforms_matrix_value64 := map Fin (tone_step (rho r) (rho g) (rho b) vs)\<rparr>"
    using True by (simp add: adjustTone64_Fin multiplyMatrix64_def m tone_step_correct[OF a len ok'])
  have 2: "adjustTone64 (Some (Fin (- r))) (Some (Fin (- g))) (Some (Fin (- b)))
             (f\<lparr>uniforms_matrix_value64 := map Fin (tone_step (rho r) (rho g) (rho b) vs)\<rparr>)
           = f\<lparr>uniforms_matrix_value64 := map Fin (tone_step (- rho r) (- rho g) (- rho b)
                 (tone_step (rho r) (rho g) (rho b) vs))\<rparr>"
    using True
    by (simp add: adjustTone64_Fin rho_minus multiplyMatrix64_def
        tone_step_correct[OF na tone_step_props[OF a len ok]])
  show ?thesis
    unfolding 1 2 using row_restored_tone[OF a len]
    by (simp add: m tone_step_def)
qed

text \<open>
  Claim C5, as the code has it: adjustTone(r, g, b) followed by adjustTone(-r, -g, -b)
  gives a filter whose matrix is the identity back exactly as it was; on a stored matrix
  of sixteen finite doubles of magnitude at most 2^1000 it restores the first three
  columns exactly and every entry of the 4th column up to rounding, within 2^-49 times
  the sum of the magnitudes of its row (plus 2^-1070), and it changes nothing else.
\<close>

theorem adjustTone_round_trip:
  "(uniforms_matrix_value64 f = identity_matrix64 \<longrightarrow> tone_there_and_back r g b f = f)
   \<and> (length (uniforms_matrix_value64 f) = 16
        \<and> list_all (\<lambda>d. finite_double d \<and> \<bar>real_of d\<bar> \<le> 2 ^ 1000) (uniforms_matrix_value64 f)
       \<longrightarrow>
         length (uniforms_matrix_value64 (tone_there_and_back r g b f)) = 16
         \<and> row_restored (uniforms_matrix_value64 f)
               (uniforms_matrix_value64 (tone_there_and_back r g b f)) 0
         \<and> row_restored (uniforms_matrix_value64 f)
               (uniforms_matrix_value64 (tone_there_and_back r g b f)) 1
         \<and> row_restored (uniforms_matrix_value64 f)
               (uniforms_matrix_value64 (tone_there_and_back r g b f)) 2
         \<and> row_restored (uniforms_matrix_value64 f)
               (uniforms_matrix_value64 (tone_there_and_back r g b f)) 3
         \<and> fragmentSrc64 (tone_there_and_back r g b f) = fragmentSrc64 f)"
  unfolding tone_there_and_back_def
  using adjustTone64_inverse_identity[of f r g b] adjustTone64_inverse_general[of f r g b]
  by blast

theorem adjustTone_round_trip_witness:
  "tone_there_and_back 102 0 0 ToneFilter64_initialize = ToneFilter64_initialize
   \<and> row_restored (tone_matrix64 (Fin d02) (Fin 0) (Fin 0))
         (tone_matrix64 (Fin d02up) (Fin 0) (Fin 0)) 0
   \<and> \<bar>d02up - d02\<bar> \<le> rounding_allowance 1 0 0 d02"
proof -
  have fresh: "uniforms_matrix_value64 ToneFilter64_initialize = identity_matrix64"
    by (simp add: ToneFilter64_initialize_def)
  have small: "\<bar>d02\<bar> \<le> 2 ^ 1000"
    by (simp add: d02_def)
  have stored: "length (uniforms_matrix_value64 sample_filter64) = 16
      \<and> list_all (\<lambda>d. finite_double d \<and> \<bar>real_of d\<bar> \<le> 2 ^ 1000)
            (uniforms_matrix_value64 sample_filter64)"
    using small sample_representable(1)
    by (simp add: sample_filter64_def tone_matrix64_def)
  from adjustTone_round_trip[of ToneFilter64_initialize 102 0 0] fresh
  have 1: "tone_there_and_back 102 0 0 ToneFilter64_initialize = ToneFilter64_initialize"
    by blast
  from adjustTone_round_trip[of sample_filter64 102 0 0] stored
  have "row_restored (uniforms_matrix_value64 sample_filter64)
          (uniforms_matrix_value64 (tone_there_and_back 102 0 0 sample_filter64)) 0"
    by blast
  then have 2: "row_restored (tone_matrix64 (Fin d02) (Fin 0) (Fin 0))
                  (tone_matrix64 (Fin d02up) (Fin 0) (Fin 0)) 0"
    unfolding sample_there_and_back by (simp add: sample_filter64_def)
  then have 3: "\<bar>d02up - d02\<bar> \<le> rounding_allowance 1 0 0 d02"
    by (simp add: row_restored_def tone_matrix64_def)
  from 1 2 3 show ?thesis by blast
qed

text \<open>
  Claim C5 as stated fails: after adjustTone(51, 0, 0) the fresh filter stores the double
  nearest 0.2 at entry (0, 3); adjustTone(102, 0, 0) and then adjustTone(-102, 0, 0)
  leave the double two places above it there (0.20000000000000007).
\<close>

theorem adjustTone_round_trip_counterexample:
  "uniforms_matrix_value64
     (adjustTone64 (Some (Fin 51)) (Some (Fin 0)) (Some (Fin 0)) ToneFilter64_initialize) ! 3
     = Fin (7205759403792794 / 2 ^ 55)
   \<and> uniforms_matrix_value64
       (adjustTone64 (Some (Fin (- 102))) (Some (Fin 0)) (Some (Fin 0))
         (adjustTone64 (Some (Fin 102)) (Some (Fin 0)) (Some (Fin 0))
           (adjustTone64 (Some (Fin 51)) (Some (Fin 0)) (Some (Fin 0))
              ToneFilter64_initialize))) ! 3
     = Fin (7205759403792796 / 2 ^ 55)"
  unfolding tone_51_on_fresh tone_102_on_sample tone_minus_102_after
  by (simp add: tone_matrix64_def sample_filter64_def d02_def d02up_def)

end
